theory Spec2Isabelle
  imports Complex_Main
begin

section \<open>Numeric cells\<close>

text \<open>
  A float64 value, as the divisions and means of the dashboard produce it, is a real
  number or one of the three non-finite values of IEEE arithmetic. Rounding and
  overflow of finite results are not modelled: finite float arithmetic is exact. NaN is
  also what pandas shows for a missing (null) numeric cell. A zero divisor is taken as
  +0.0.
\<close>

datatype fval = Fin real | PInf | NInf | NaN

fun fneg :: "fval \<Rightarrow> fval" where
  "fneg (Fin a) = Fin (- a)"
| "fneg PInf = NInf"
| "fneg NInf = PInf"
| "fneg NaN = NaN"

fun fadd :: "fval \<Rightarrow> fval \<Rightarrow> fval" where
  "fadd NaN _ = NaN"
| "fadd _ NaN = NaN"
| "fadd (Fin a) (Fin b) = Fin (a + b)"
| "fadd PInf NInf = NaN"
| "fadd NInf PInf = NaN"
| "fadd PInf _ = PInf"
| "fadd _ PInf = PInf"
| "fadd NInf _ = NInf"
| "fadd _ NInf = NInf"

definition fsub :: "fval \<Rightarrow> fval \<Rightarrow> fval" where
  "fsub a b = fadd a (fneg b)"

fun fmul :: "fval \<Rightarrow> fval \<Rightarrow> fval" where
  "fmul NaN _ = NaN"
| "fmul _ NaN = NaN"
| "fmul (Fin a) (Fin b) = Fin (a * b)"
| "fmul PInf (Fin b) = (if b = 0 then NaN else if 0 < b then PInf else NInf)"
| "fmul NInf (Fin b) = (if b = 0 then NaN else if 0 < b then NInf else PInf)"
| "fmul (Fin a) PInf = (if a = 0 then NaN else if 0 < a then PInf else NInf)"
| "fmul (Fin a) NInf = (if a = 0 then NaN else if 0 < a then NInf else PInf)"
| "fmul PInf PInf = PInf"
| "fmul NInf NInf = PInf"
| "fmul PInf NInf = NInf"
| "fmul NInf PInf = NInf"

fun fdiv :: "fval \<Rightarrow> fval \<Rightarrow> fval" where
  "fdiv NaN _ = NaN"
| "fdiv _ NaN = NaN"
| "fdiv (Fin a) (Fin b) =
     (if b \<noteq> 0 then Fin (a / b)
      else if a = 0 then NaN else if 0 < a then PInf else NInf)"
| "fdiv (Fin a) PInf = Fin 0"
| "fdiv (Fin a) NInf = Fin 0"
| "fdiv PInf (Fin b) = (if 0 \<le> b then PInf else NInf)"
| "fdiv NInf (Fin b) = (if 0 \<le> b then NInf else PInf)"
| "fdiv PInf PInf = NaN"
| "fdiv PInf NInf = NaN"
| "fdiv NInf PInf = NaN"
| "fdiv NInf NInf = NaN"

fun isfinite :: "fval \<Rightarrow> bool" where
  "isfinite (Fin a) = True"
| "isfinite _ = False"

fun isnan :: "fval \<Rightarrow> bool" where
  "isnan NaN = True"
| "isnan _ = False"

section \<open>Cells of numeric columns\<close>

text \<open>
  A numeric column read from the workbook has dtype int64 when every cell of it is an
  integer, and float64 otherwise; in a float64 column an empty cell is NaN, written
  \<open>NA\<close>. Arithmetic on an int64 column is 64-bit two's complement arithmetic: sums
  and differences wrap around without an error. Arithmetic on a float64 column is
  modelled as exact.
\<close>

datatype num = I64 int | F64 real | NA

definition wrap64 :: "int \<Rightarrow> int" where
  "wrap64 i = (i + 2 ^ 63) mod 2 ^ 64 - 2 ^ 63"

fun is_I64 :: "num \<Rightarrow> bool" where
  "is_I64 (I64 i) = True"
| "is_I64 _ = False"

fun int_of :: "num \<Rightarrow> int" where
  "int_of (I64 i) = i"
| "int_of _ = 0"

fun num_real :: "num \<Rightarrow> real" where
  "num_real (I64 i) = of_int i"
| "num_real (F64 x) = x"
| "num_real NA = 0"

fun to_fval :: "num \<Rightarrow> fval" where
  "to_fval NA = NaN"
| "to_fval (I64 i) = Fin (of_int i)"
| "to_fval (F64 x) = Fin x"

definition int64_column :: "num list \<Rightarrow> bool" where
  "int64_column xs = list_all is_I64 xs"

text \<open>
  The difference of two columns, cell by cell (\<^verbatim>\<open>a - b\<close> on two Series of one
  frame): int64 when both columns are, float64 otherwise, where a cell is NaN when
  either operand is.
\<close>

definition sub_columns :: "num list \<Rightarrow> num list \<Rightarrow> num list" where
  "sub_columns a b =
     (if int64_column a \<and> int64_column b
      then map (\<lambda>(x, y). I64 (wrap64 (int_of x - int_of y))) (zip a b)
      else map (\<lambda>(x, y). if x = NA \<or> y = NA then NA else F64 (num_real x - num_real y))
             (zip a b))"

text \<open>The difference of two scalars taken from one column of sums.\<close>

definition num_sub :: "num \<Rightarrow> num \<Rightarrow> num" where
  "num_sub a b =
     (if is_I64 a \<and> is_I64 b then I64 (wrap64 (int_of a - int_of b))
      else if a = NA \<or> b = NA then NA
      else F64 (num_real a - num_real b))"

text \<open>
  \<^verbatim>\<open>sum()\<close> over the cells \<open>part\<close> taken from the column \<open>col\<close>, whose dtype
  it has: nulls are skipped and the sum of no cell is 0.
\<close>

definition column_sum :: "num list \<Rightarrow> num list \<Rightarrow> num" where
  "column_sum col part =
     (if int64_column col then I64 (wrap64 (sum_list (map int_of part)))
      else F64 (sum_list (map num_real (filter (\<lambda>x. x \<noteq> NA) part))))"

text \<open>
  \<^verbatim>\<open>count()\<close> and \<^verbatim>\<open>mean()\<close> skip nulls; the mean is computed in float64
  also for an int64 column, and the mean of no cell is NaN.
\<close>

definition count_cells :: "num list \<Rightarrow> nat" where
  "count_cells xs = length (filter (\<lambda>x. x \<noteq> NA) xs)"

definition mean_cells :: "num list \<Rightarrow> fval" where
  "mean_cells xs =
     (let vs = map num_real (filter (\<lambda>x. x \<noteq> NA) xs)
      in if vs = [] then NaN else Fin (sum_list vs / real (length vs)))"

definition mean_reals :: "real list \<Rightarrow> fval" where
  "mean_reals vs = (if vs = [] then NaN else Fin (sum_list vs / real (length vs)))"

text \<open>
  \<^verbatim>\<open>mean()\<close> and \<^verbatim>\<open>median()\<close> of a float64 column that may hold
  infinities: NaN is skipped, infinities are not. The median of an even number of
  values is the mean of the two middle ones.
\<close>

definition nanmean :: "fval list \<Rightarrow> fval" where
  "nanmean xs =
     (let vs = filter (\<lambda>x. \<not> isnan x) xs
      in if vs = [] then NaN else fdiv (foldl fadd (Fin 0) vs) (Fin (real (length vs))))"

fun fle :: "fval \<Rightarrow> fval \<Rightarrow> bool" where
  "fle NInf _ = True"
| "fle _ PInf = True"
| "fle (Fin a) (Fin b) = (a \<le> b)"
| "fle _ _ = False"

fun finsert :: "fval \<Rightarrow> fval list \<Rightarrow> fval list" where
  "finsert x [] = [x]"
| "finsert x (y # ys) = (if fle x y then x # y # ys else y # finsert x ys)"

definition fsort :: "fval list \<Rightarrow> fval list" where
  "fsort xs = foldr finsert xs []"

definition nanmedian :: "fval list \<Rightarrow> fval" where
  "nanmedian xs =
     (let vs = fsort (filter (\<lambda>x. \<not> isnan x) xs); n = length vs
      in if n = 0 then NaN
         else if odd n then vs ! (n div 2)
         else fdiv (fadd (vs ! (n div 2 - 1)) (vs ! (n div 2))) (Fin 2))"

text \<open>
  \<^verbatim>\<open>round(2)\<close> on a frame: a float64 cell becomes the nearest multiple of 0.01,
  a tie going to the even multiple; int64 cells, dates, NaN and infinities are left as
  they are.
\<close>

definition rint :: "real \<Rightarrow> int" where
  "rint x =
     (let f = \<lfloor>x\<rfloor>; d = x - of_int f
      in if d < 1 / 2 then f else if 1 / 2 < d then f + 1
         else if even f then f else f + 1)"

definition round2 :: "real \<Rightarrow> real" where
  "round2 x = of_int (rint (x * 100)) / 100"

fun round2_num :: "num \<Rightarrow> num" where
  "round2_num (F64 x) = F64 (round2 x)"
| "round2_num n = n"

fun round2_fval :: "fval \<Rightarrow> fval" where
  "round2_fval (Fin x) = Fin (round2 x)"
| "round2_fval v = v"

section \<open>Churn risk\<close>

text \<open>
  \<^verbatim>\<open>churn_risk\<close>, the local function of \<^verbatim>\<open>create_predictive_insights\<close>
  applied to the column Days\_Since\_Last\_Purchase (whole days, from \<^verbatim>\<open>.dt.days\<close>).
\<close>

datatype risk = Active | At_Risk | High_Risk | Churned

definition churn_risk :: "int \<Rightarrow> risk" where
  "churn_risk days =
     (if days \<le> 30 then Active
      else if days \<le> 90 then At_Risk
      else if days \<le> 180 then High_Risk
      else Churned)"

section \<open>Frames and the left merge\<close>

text \<open>
  A pandas DataFrame is a list of column labels and a list of rows; a cell is
  \<open>None\<close> when it is null. The exceptions the modelled code can raise are values.
\<close>

datatype error = KeyError | ValueError | IndexError

record 'a DataFrame =
  columns :: "string list"
  rws :: "'a option list list"

definition cell :: "'a option list \<Rightarrow> nat \<Rightarrow> 'a option" where
  "cell r i = (if i < length r then r ! i else None)"

fun index_of :: "'b \<Rightarrow> 'b list \<Rightarrow> nat" where
  "index_of x [] = 0"
| "index_of x (y # ys) = (if x = y then 0 else Suc (index_of x ys))"

definition drop_at :: "nat \<Rightarrow> 'b list \<Rightarrow> 'b list" where
  "drop_at i xs = take i xs @ drop (Suc i) xs"

definition suffixed :: "string list \<Rightarrow> string \<Rightarrow> string \<Rightarrow> string" where
  "suffixed overlap sfx c = (if c \<in> set overlap then c @ sfx else c)"

definition key_values :: "'a DataFrame \<Rightarrow> string \<Rightarrow> 'a option list" where
  "key_values d k = map (\<lambda>r. cell r (index_of k (columns d))) (rws d)"

definition matches :: "'a DataFrame \<Rightarrow> nat \<Rightarrow> 'a option \<Rightarrow> 'a option list list" where
  "matches right ri v = filter (\<lambda>r. cell r ri = v) (rws right)"

text \<open>
  \<^verbatim>\<open>left.merge(right, left_on=.., right_on=.., how='left')\<close>; \<^verbatim>\<open>on=k\<close> is the
  case \<open>left_on = right_on\<close>, where the right key column is dropped from the result.
  A missing key label raises KeyError, a repeated one ValueError. The library also
  raises ValueError when the dtypes of the two key columns are incompatible (integers
  against strings, for one); the dtypes were inferred from the cells when the workbook
  was read, and the library's test is the parameter \<open>compatible\<close>, applied to the
  two key columns. Every left row, in order, yields one row per right row with an equal
  key (null keys match null keys), and one row filled with nulls when there is none.
  Labels that both sides share get the suffixes \_x and \_y. No validation of key
  uniqueness is requested (\<^verbatim>\<open>validate\<close> is not passed).
\<close>

type_synonym 'a dtype_check = "'a option list \<Rightarrow> 'a option list \<Rightarrow> bool"

definition merge ::
  "'a dtype_check \<Rightarrow> 'a DataFrame \<Rightarrow> 'a DataFrame \<Rightarrow> string \<Rightarrow> string
     \<Rightarrow> error + 'a DataFrame" where
  "merge compatible left right left_on right_on =
     (if left_on \<notin> set (columns left) \<or> right_on \<notin> set (columns right) then Inl KeyError
      else if 1 < count_list (columns left) left_on \<or> 1 < count_list (columns right) right_on
        then Inl ValueError
      else if \<not> compatible (key_values left left_on) (key_values right right_on)
        then Inl ValueError
      else
        let li = index_of left_on (columns left);
            ri = index_of right_on (columns right);
            shared = (left_on = right_on);
            rcols = (if shared then drop_at ri (columns right) else columns right);
            overlap = filter (\<lambda>c. c \<in> set rcols) (columns left);
            rrow = (\<lambda>r. if shared then drop_at ri r else r);
            out = (\<lambda>l. let ms = matches right ri (cell l li)
                        in if ms = [] then [l @ replicate (length rcols) None]
                           else map (\<lambda>r. l @ rrow r) ms)
        in Inr \<lparr>columns = map (suffixed overlap ''_x'') (columns left) @
                            map (suffixed overlap ''_y'') rcols,
                 rws = concat (map out (rws left))\<rparr>)"

definition and_then :: "error + 'b \<Rightarrow> ('b \<Rightarrow> error + 'c) \<Rightarrow> error + 'c" where
  "and_then m f = (case m of Inl e \<Rightarrow> Inl e | Inr x \<Rightarrow> f x)"

text \<open>
  \<^verbatim>\<open>data\<close> is the dict of sheets read from the workbook; a sheet that is not
  there raises KeyError at \<^verbatim>\<open>data['...']\<close>.
\<close>

definition merge_sheet ::
  "'a dtype_check \<Rightarrow> (string \<rightharpoonup> 'a DataFrame) \<Rightarrow> string \<Rightarrow> string \<Rightarrow> string
     \<Rightarrow> 'a DataFrame \<Rightarrow> error + 'a DataFrame" where
  "merge_sheet compatible data sheet left_on right_on left =
     (case data sheet of None \<Rightarrow> Inl KeyError
      | Some right \<Rightarrow> merge compatible left right left_on right_on)"

text \<open>
  The merge chain of \<^verbatim>\<open>load_and_prepare_data\<close> (lines 41 to 56).
\<close>

definition comprehensive_merge ::
  "'a dtype_check \<Rightarrow> (string \<rightharpoonup> 'a DataFrame) \<Rightarrow> error + 'a DataFrame" where
  "comprehensive_merge compatible data =
     (case data ''Sales_data'' of None \<Rightarrow> Inl KeyError
      | Some sales_data \<Rightarrow>
          and_then (and_then (and_then (and_then (and_then
            (merge_sheet compatible data ''Date_data'' ''OrderDateKey'' ''DateKey'' sales_data)
            (merge_sheet compatible data ''Sales Territory_data'' ''SalesTerritoryKey'' ''SalesTerritoryKey''))
            (merge_sheet compatible data ''Product_data'' ''ProductKey'' ''ProductKey''))
            (merge_sheet compatible data ''Customer_data'' ''CustomerKey'' ''CustomerKey''))
            (merge_sheet compatible data ''Sales Order_data'' ''SalesOrderLineKey'' ''SalesOrderLineKey''))
            (merge_sheet compatible data ''Reseller_data'' ''ResellerKey'' ''ResellerKey''))"

text \<open>The dimension sheets with the label of their join key.\<close>

definition dimension_keys :: "(string \<times> string) list" where
  "dimension_keys =
     [(''Date_data'', ''DateKey''),
      (''Sales Territory_data'', ''SalesTerritoryKey''),
      (''Product_data'', ''ProductKey''),
      (''Customer_data'', ''CustomerKey''),
      (''Sales Order_data'', ''SalesOrderLineKey''),
      (''Reseller_data'', ''ResellerKey'')]"

definition unique_keys :: "(string \<rightharpoonup> 'a DataFrame) \<Rightarrow> bool" where
  "unique_keys data =
     list_all (\<lambda>(sheet, k). case data sheet of None \<Rightarrow> True
                                | Some d \<Rightarrow> distinct (key_values d k)) dimension_keys"

text \<open>
  A small workbook: two sales lines, the second with no territory and an order date
  that has no row in the date sheet. In \<open>fanout_sheets\<close> the product sheet
  carries the product key 5 twice. Every cell of it is a number, so that all key
  columns have compatible dtypes.
\<close>

definition numeric_keys :: "nat dtype_check" where
  "numeric_keys l r = True"

definition example_sales :: "nat DataFrame" where
  "example_sales =
     \<lparr>columns = [''SalesOrderLineKey'', ''ResellerKey'', ''CustomerKey'', ''ProductKey'',
                 ''OrderDateKey'', ''SalesTerritoryKey'', ''Sales Amount''],
      rws = [[Some 1, Some 7, Some 3, Some 5, Some 20200101, Some 2, Some 100],
             [Some 2, Some 7, Some 4, Some 5, Some 20200102, None, Some 300]]\<rparr>"

definition twin_products :: "nat DataFrame" where
  "twin_products =
     \<lparr>columns = [''ProductKey'', ''Category''],
      rws = [[Some 5, Some 21], [Some 5, Some 22]]\<rparr>"

definition example_sheets :: "string \<rightharpoonup> nat DataFrame" where
  "example_sheets =
     [''Sales_data'' \<mapsto> example_sales,
      ''Date_data'' \<mapsto>
        \<lparr>columns = [''DateKey'', ''Fiscal Year''],
         rws = [[Some 20200101, Some 2020]]\<rparr>,
      ''Sales Territory_data'' \<mapsto>
        \<lparr>columns = [''SalesTerritoryKey'', ''Country''],
         rws = [[Some 1, Some 11], [Some 2, Some 12]]\<rparr>,
      ''Product_data'' \<mapsto>
        \<lparr>columns = [''ProductKey'', ''Category''],
         rws = [[Some 5, Some 21], [Some 6, Some 22]]\<rparr>,
      ''Customer_data'' \<mapsto>
        \<lparr>columns = [''CustomerKey'', ''City''],
         rws = [[Some 3, Some 31], [Some 4, Some 32]]\<rparr>,
      ''Sales Order_data'' \<mapsto>
        \<lparr>columns = [''SalesOrderLineKey'', ''Channel''],
         rws = [[Some 1, Some 41], [Some 2, Some 42]]\<rparr>,
      ''Reseller_data'' \<mapsto>
        \<lparr>columns = [''ResellerKey'', ''Business Type''],
         rws = [[Some 7, Some 51]]\<rparr>]"

definition fanout_sheets :: "string \<rightharpoonup> nat DataFrame" where
  "fanout_sheets = example_sheets(''Product_data'' \<mapsto> twin_products)"

section \<open>Enriched rows and derived fields\<close>

text \<open>
  The analytics read a fixed set of columns of the merged frame. A row of it is a record
  of these cells: the keys and labels may be null, and the numeric cells are as read
  from the workbook. \<open>Date\<close> is the order date as a day number, null when the sales
  line matched no row of the date sheet. \<open>Month_Name\<close> is the month of the order
  date, which the code derives from the Date column; it is carried as a cell here.
\<close>

record 'k sale =
  CustomerKey :: "'k option"
  ProductKey :: "'k option"
  Country :: "'k option"
  Product :: "'k option"
  Category :: "'k option"
  Channel :: "'k option"
  Fiscal_Year :: "'k option"
  Date :: "int option"
  Month_Name :: "'k option"
  Sales_Amount :: num
  Total_Product_Cost :: num
  Order_Quantity :: num

record 'k enriched = "'k sale" +
  Profit :: num
  Profit_Margin :: fval

text \<open>
  Lines 60 and 61 of \<^verbatim>\<open>load_and_prepare_data\<close>, and lines 69 and 70 of
  \<^verbatim>\<open>create_sales_performance_charts\<close>:
  \<^verbatim>\<open>Profit = Sales Amount - Total Product Cost\<close> and
  \<^verbatim>\<open>Profit_Margin = (Profit / Sales Amount) * 100\<close>. The division is the float
  division of two columns, cell by cell: it never raises.
\<close>

definition add_calculated_fields :: "'k sale list \<Rightarrow> 'k enriched list" where
  "add_calculated_fields data =
     (let profit = sub_columns (map Sales_Amount data) (map Total_Product_Cost data);
          margin = map (\<lambda>(p, s). fmul (fdiv (to_fval p) (to_fval s)) (Fin 100))
                     (zip profit (map Sales_Amount data))
      in map (\<lambda>(r, p, m). sale.extend r (enriched.fields p m)) (zip data (zip profit margin)))"

section \<open>Aggregation\<close>

definition nunique :: "'k option list \<Rightarrow> nat" where
  "nunique xs = length (remdups (List.map_filter (\<lambda>x. x) xs))"

text \<open>
  \<^verbatim>\<open>groupby(key)\<close>: one group for each non-null key, in ascending key order; rows
  with a null key belong to no group. \<open>series_sum val rs g\<close> is the sum of the column
  \<open>val\<close> of the frame \<open>rs\<close> over its rows \<open>g\<close>.
\<close>

definition group_keys :: "('r \<Rightarrow> 'k::linorder option) \<Rightarrow> 'r list \<Rightarrow> 'k list" where
  "group_keys key rs = sort (remdups (List.map_filter key rs))"

definition group_rows :: "('r \<Rightarrow> 'k option) \<Rightarrow> 'r list \<Rightarrow> 'k \<Rightarrow> 'r list" where
  "group_rows key rs k = filter (\<lambda>r. key r = Some k) rs"

definition series_sum :: "('r \<Rightarrow> num) \<Rightarrow> 'r list \<Rightarrow> 'r list \<Rightarrow> num" where
  "series_sum val rs g = column_sum (map val rs) (map val g)"

definition groupby_sum ::
  "('r \<Rightarrow> 'k::linorder option) \<Rightarrow> ('r \<Rightarrow> num) \<Rightarrow> 'r list \<Rightarrow> ('k \<times> num) list" where
  "groupby_sum key val rs =
     map (\<lambda>k. (k, series_sum val rs (group_rows key rs k))) (group_keys key rs)"

definition groupby_mean ::
  "('r \<Rightarrow> 'k::linorder option) \<Rightarrow> ('r \<Rightarrow> num) \<Rightarrow> 'r list \<Rightarrow> ('k \<times> fval) list" where
  "groupby_mean key val rs =
     map (\<lambda>k. (k, mean_cells (map val (group_rows key rs k)))) (group_keys key rs)"

text \<open>The earliest and the latest date of some rows; null when none has a date.\<close>

definition min_date :: "('k, 'z) sale_scheme list \<Rightarrow> int option" where
  "min_date g =
     (let ds = List.map_filter Date g in if ds = [] then None else Some (Min (set ds)))"

definition max_date :: "('k, 'z) sale_scheme list \<Rightarrow> int option" where
  "max_date g =
     (let ds = List.map_filter Date g in if ds = [] then None else Some (Max (set ds)))"

section \<open>Executive summary\<close>

text \<open>
  \<^verbatim>\<open>create_executive_summary\<close>. The entry \<^verbatim>\<open>date_range\<close> formats the
  earliest and the latest order date; it is kept as the pair of the two dates. When no
  row has a date, the earliest date is missing and formatting it raises ValueError.
  \<^verbatim>\<open>yearly_sales\<close> is the revenue per fiscal year in ascending order of the fiscal
  year; \<^verbatim>\<open>iloc[-1]\<close> and \<^verbatim>\<open>iloc[-2]\<close> are read only when there are at
  least two years. \<open>growth_metrics\<close> is the block that computes
  \<^verbatim>\<open>yoy_growth\<close> (lines 84 to 89).
\<close>

record summary =
  total_revenue :: num
  total_transactions :: nat
  unique_customers :: nat
  unique_products :: nat
  avg_order_value :: fval
  total_profit :: num
  avg_profit_margin :: fval
  countries :: nat
  date_range :: "int \<times> int"
  yoy_growth :: fval
  customer_ltv :: fval

definition yearly_sales :: "('k::linorder) enriched list \<Rightarrow> ('k \<times> num) list" where
  "yearly_sales data = sort_key fst (groupby_sum Fiscal_Year Sales_Amount data)"

definition growth_metrics :: "('k::linorder) enriched list \<Rightarrow> fval" where
  "growth_metrics data =
     (let ys = yearly_sales data; n = length ys
      in if 1 < n
         then fmul (fdiv (to_fval (num_sub (snd (ys ! (n - 1))) (snd (ys ! (n - 2)))))
                         (to_fval (snd (ys ! (n - 2))))) (Fin 100)
         else Fin 0)"

definition create_executive_summary :: "('k::linorder) enriched list \<Rightarrow> error + summary" where
  "create_executive_summary data =
     (case (min_date data, max_date data) of
        (Some first_date, Some last_date) \<Rightarrow>
          Inr \<lparr>total_revenue = series_sum Sales_Amount data data,
               total_transactions = length data,
               unique_customers = nunique (map CustomerKey data),
               unique_products = nunique (map ProductKey data),
               avg_order_value = mean_cells (map Sales_Amount data),
               total_profit = series_sum Profit data data,
               avg_profit_margin = nanmean (map Profit_Margin data),
               countries = nunique (map Country data),
               date_range = (first_date, last_date),
               yoy_growth = growth_metrics data,
               customer_ltv =
                 mean_reals (map (\<lambda>(k, v). num_real v)
                               (groupby_sum CustomerKey Sales_Amount data))\<rparr>
      | _ \<Rightarrow> Inl ValueError)"

text \<open>
  The growth rates per fiscal year that \<^verbatim>\<open>create_time_series_charts\<close> draws
  (lines 481 to 484 of create\_insights\_charts.py):
  \<^verbatim>\<open>pct_change() * 100\<close> on the revenue per fiscal year, which divides every
  sum by the sum before it and subtracts 1; the first year has no rate.
\<close>

definition pct_change :: "num list \<Rightarrow> fval list" where
  "pct_change xs =
     map (\<lambda>i. if i = 0 then NaN
              else fsub (fdiv (to_fval (xs ! i)) (to_fval (xs ! (i - 1)))) (Fin 1))
       [0..<length xs]"

definition YoY_Growth :: "(('k::linorder), 'z) sale_scheme list \<Rightarrow> fval list" where
  "YoY_Growth sales_with_dates =
     (let yearly_sales = sort_key fst (groupby_sum Fiscal_Year Sales_Amount sales_with_dates)
      in map (\<lambda>g. fmul g (Fin 100)) (pct_change (map snd yearly_sales)))"

section \<open>Sales performance\<close>

text \<open>
  The mean and the median of the row margins that
  \<^verbatim>\<open>create_sales_performance_analytics\<close> writes on the margin histogram (lines 166
  to 169), and the mean that \<^verbatim>\<open>create_sales_performance_charts\<close> writes on its
  histogram of the margins of the sales sheet (lines 69 to 74).
\<close>

definition profit_margin_labels :: "'k enriched list \<Rightarrow> fval \<times> fval" where
  "profit_margin_labels data =
     (nanmean (map Profit_Margin data), nanmedian (map Profit_Margin data))"

definition sales_sheet_margin_mean :: "'k sale list \<Rightarrow> fval" where
  "sales_sheet_margin_mean sales_data =
     nanmean (map Profit_Margin (add_calculated_fields sales_data))"

section \<open>Countries\<close>

text \<open>
  \<^verbatim>\<open>sort_values(ascending=False)\<close> is modelled as the library does it for a stable
  sort (reverse, sort ascending, reverse); the default sort is stable on short columns
  only, which matters for the order of equal sums and nothing else. The market share
  of \<^verbatim>\<open>create_geographic_intelligence\<close> (lines 221 to 234) divides the revenue of
  a country by the sum of the country revenues.
\<close>

definition sort_values_desc :: "('k \<times> num) list \<Rightarrow> ('k \<times> num) list" where
  "sort_values_desc xs = rev (sort_key (\<lambda>(k, v). num_real v) (rev xs))"

definition market_share :: "('k::linorder) enriched list \<Rightarrow> ('k \<times> fval) list" where
  "market_share data =
     (let country_sales = sort_values_desc (groupby_sum Country Sales_Amount data);
          total_sales = column_sum (map snd country_sales) (map snd country_sales)
      in map (\<lambda>(c, v). (c, fmul (fdiv (to_fval v) (to_fval total_sales)) (Fin 100)))
           country_sales)"

text \<open>
  \<^verbatim>\<open>country_opportunity\<close> of \<^verbatim>\<open>create_predictive_insights\<close> (lines 737 to
  743).
\<close>

record 'k country_row =
  country_of :: 'k
  country_sales_sum :: num
  country_customers :: nat
  country_products :: nat
  Revenue_per_Customer :: fval
  Market_Penetration :: fval

definition country_opportunity :: "('k::linorder) enriched list \<Rightarrow> 'k country_row list" where
  "country_opportunity data =
     (let total_customers =
            sum_list (map (\<lambda>c. nunique (map CustomerKey (group_rows Country data c)))
                        (group_keys Country data))
      in map (\<lambda>c. let g = group_rows Country data c;
                      s = series_sum Sales_Amount data g;
                      n = nunique (map CustomerKey g)
                  in \<lparr>country_of = c, country_sales_sum = s, country_customers = n,
                      country_products = nunique (map ProductKey g),
                      Revenue_per_Customer = fdiv (to_fval s) (Fin (real n)),
                      Market_Penetration = fdiv (Fin (real n)) (Fin (real total_customers))\<rparr>)
           (group_keys Country data))"

section \<open>Products\<close>

text \<open>
  \<^verbatim>\<open>category_metrics\<close> of \<^verbatim>\<open>create_product_intelligence\<close> (lines 320 to
  326) and \<^verbatim>\<open>product_metrics\<close> of \<^verbatim>\<open>create_predictive_insights\<close> (lines 705
  to 714): the sums per group, then the margin from these sums. Of the product metrics,
  the three price columns, which only enter the correlation matrix, are left out.
\<close>

record 'k category_row =
  category_of :: 'k
  sales_sum :: num
  profit_sum :: num
  quantity_sum :: num
  product_count :: nat
  margin :: fval

definition category_metrics :: "('k::linorder) enriched list \<Rightarrow> 'k category_row list" where
  "category_metrics data =
     map (\<lambda>c. let g = group_rows Category data c;
                  s = series_sum Sales_Amount data g;
                  p = series_sum Profit data g
              in \<lparr>category_of = c, sales_sum = s, profit_sum = p,
                  quantity_sum = series_sum Order_Quantity data g,
                  product_count = nunique (map ProductKey g),
                  margin = fmul (fdiv (to_fval p) (to_fval s)) (Fin 100)\<rparr>)
         (group_keys Category data)"

record 'k product_row =
  product_of :: 'k
  product_sales :: num
  product_quantity :: num
  product_profit :: num
  product_margin :: fval

definition product_metrics :: "('k::linorder) enriched list \<Rightarrow> 'k product_row list" where
  "product_metrics data =
     map (\<lambda>k. let g = group_rows ProductKey data k;
                  s = series_sum Sales_Amount data g;
                  p = series_sum Profit data g
              in \<lparr>product_of = k, product_sales = s,
                  product_quantity = series_sum Order_Quantity data g, product_profit = p,
                  product_margin = fmul (fdiv (to_fval p) (to_fval s)) (Fin 100)\<rparr>)
         (group_keys ProductKey data)"

section \<open>Channels\<close>

text \<open>
  \<^verbatim>\<open>channel_metrics\<close> (lines 526 to 535) and \<^verbatim>\<open>channel_efficiency\<close> (lines
  596 to 603) of \<^verbatim>\<open>create_channel_reseller_intelligence\<close>. The channel metrics
  are rounded to 2 decimals before the margin is taken.
\<close>

record 'k channel_row =
  channel_of :: 'k
  Total_Sales :: num
  Avg_Transaction :: fval
  Transaction_Count :: nat
  Total_Profit :: num
  Unique_Customers :: nat
  Total_Quantity :: num
  channel_margin :: fval

definition channel_metrics :: "('k::linorder) enriched list \<Rightarrow> 'k channel_row list" where
  "channel_metrics data =
     map (\<lambda>c. let g = group_rows Channel data c;
                  s = round2_num (series_sum Sales_Amount data g);
                  p = round2_num (series_sum Profit data g)
              in \<lparr>channel_of = c, Total_Sales = s,
                  Avg_Transaction = round2_fval (mean_cells (map Sales_Amount g)),
                  Transaction_Count = count_cells (map Sales_Amount g),
                  Total_Profit = p,
                  Unique_Customers = nunique (map CustomerKey g),
                  Total_Quantity = round2_num (series_sum Order_Quantity data g),
                  channel_margin = fmul (fdiv (to_fval p) (to_fval s)) (Fin 100)\<rparr>)
         (group_keys Channel data)"

record 'k efficiency_row =
  efficiency_channel :: 'k
  Revenue_per_Unit :: fval
  Cost_per_Unit :: fval
  Efficiency_Ratio :: fval

definition channel_efficiency :: "('k::linorder) enriched list \<Rightarrow> 'k efficiency_row list" where
  "channel_efficiency data =
     map (\<lambda>c. let g = group_rows Channel data c;
                  s = series_sum Sales_Amount data g;
                  t = series_sum Total_Product_Cost data g;
                  q = series_sum Order_Quantity data g;
                  rpu = fdiv (to_fval s) (to_fval q);
                  cpu = fdiv (to_fval t) (to_fval q)
              in \<lparr>efficiency_channel = c, Revenue_per_Unit = rpu, Cost_per_Unit = cpu,
                  Efficiency_Ratio = fdiv rpu cpu\<rparr>)
         (group_keys Channel data)"

section \<open>Customers\<close>

text \<open>
  \<^verbatim>\<open>customer_metrics\<close> of \<^verbatim>\<open>create_customer_analytics\<close> (lines 421 to 429):
  the aggregates per customer, rounded to 2 decimals, then the days between the first
  and the last purchase and the purchase frequency. A customer none of whose rows has a
  date has no number of days, and its frequency is NaN. The column Total\_Profit of the
  customer metrics is the field \<open>Customer_Profit\<close>, since the channel metrics have a
  column of the same name.
\<close>

record 'k customer_row =
  customer_of :: 'k
  Total_Spent :: num
  Purchase_Count :: nat
  Avg_Order :: fval
  First_Purchase :: "int option"
  Last_Purchase :: "int option"
  Customer_Profit :: num
  Days_Active :: "int option"
  Purchase_Frequency :: fval

definition days_between :: "int option \<Rightarrow> int option \<Rightarrow> int option" where
  "days_between last_date first_date =
     (case (last_date, first_date) of (Some l, Some f) \<Rightarrow> Some (l - f) | _ \<Rightarrow> None)"

fun days_fval :: "int option \<Rightarrow> fval" where
  "days_fval None = NaN"
| "days_fval (Some d) = Fin (of_int d)"

definition customer_metrics :: "('k::linorder) enriched list \<Rightarrow> 'k customer_row list" where
  "customer_metrics data =
     map (\<lambda>k. let g = group_rows CustomerKey data k;
                  n = count_cells (map Sales_Amount g);
                  days = map_option (\<lambda>d. d + 1) (days_between (max_date g) (min_date g))
              in \<lparr>customer_of = k,
                  Total_Spent = round2_num (series_sum Sales_Amount data g),
                  Purchase_Count = n,
                  Avg_Order = round2_fval (mean_cells (map Sales_Amount g)),
                  First_Purchase = min_date g,
                  Last_Purchase = max_date g,
                  Customer_Profit = round2_num (series_sum Profit data g),
                  Days_Active = days,
                  Purchase_Frequency = fmul (fdiv (Fin (real n)) (days_fval days)) (Fin 365)\<rparr>)
         (group_keys CustomerKey data)"

section \<open>Churn distribution\<close>

text \<open>
  The churn analysis of \<^verbatim>\<open>create_predictive_insights\<close> (lines 672 to 701): for
  every customer the days between the latest order date of the data and the customer's
  last order date, the risk label of that number, and for a label the share of the
  customers that carry it. A customer with no order date has no number of days; every
  comparison with NaN is false, which leaves the last branch of \<^verbatim>\<open>churn_risk\<close>.
  The program computes the share for the labels that occur.
\<close>

fun churn_risk_cell :: "int option \<Rightarrow> risk" where
  "churn_risk_cell None = Churned"
| "churn_risk_cell (Some days) = churn_risk days"

definition days_since_last_purchase ::
  "('k::linorder) enriched list \<Rightarrow> ('k \<times> int option) list" where
  "days_since_last_purchase data =
     map (\<lambda>k. (k, days_between (max_date data) (max_date (group_rows CustomerKey data k))))
       (group_keys CustomerKey data)"

definition churn_count :: "('k::linorder) enriched list \<Rightarrow> risk \<Rightarrow> nat" where
  "churn_count data label =
     length (filter (\<lambda>(k, d). churn_risk_cell d = label) (days_since_last_purchase data))"

definition churn_percentage :: "('k::linorder) enriched list \<Rightarrow> risk \<Rightarrow> fval" where
  "churn_percentage data label =
     fmul (fdiv (Fin (real (churn_count data label)))
                (Fin (real (length (days_since_last_purchase data))))) (Fin 100)"

section \<open>Quantiles\<close>

text \<open>
  \<^verbatim>\<open>Series.quantile(q)\<close> with the default linear interpolation, on a non-empty
  list of finite values: the value at position \<open>q * (n - 1)\<close> of the sorted list,
  interpolated between its two neighbours.
\<close>

definition interpolate :: "real list \<Rightarrow> real \<Rightarrow> real" where
  "interpolate s pos =
     (let lo = nat \<lfloor>pos\<rfloor>;
          hi = min (lo + 1) (length s - 1);
          g = pos - real lo
      in s ! lo + g * (s ! hi - s ! lo))"

definition quantile :: "real list \<Rightarrow> real \<Rightarrow> real" where
  "quantile xs q = interpolate (sort xs) (q * real (length xs - 1))"

section \<open>Customer segments\<close>

text \<open>
  \<^verbatim>\<open>pd.qcut(x, q, labels)\<close> on a column of finite values. The bin edges are the
  quantiles at \<open>0, 1/q, ..., 1\<close>; edges that are not all different raise ValueError
  (\<^verbatim>\<open>duplicates='raise'\<close>), as does an empty column, whose quantiles are all
  missing. A value gets the position \<^verbatim>\<open>searchsorted(bins, v, side='left')\<close>, the
  number of edges below it, and the lowest edge is included in the first bin; a value
  outside the edges gets no label.
\<close>

definition searchsorted_left :: "real list \<Rightarrow> real \<Rightarrow> nat" where
  "searchsorted_left bins v = length (takeWhile (\<lambda>b. b < v) bins)"

definition qcut :: "real list \<Rightarrow> nat \<Rightarrow> 'l list \<Rightarrow> error + 'l option list" where
  "qcut x q labels =
     (if x = [] then Inl ValueError
      else let bins = map (\<lambda>k. quantile x (real k / real q)) [0..<q + 1]
           in if \<not> distinct bins \<and> length bins \<noteq> 2 then Inl ValueError
              else if length labels \<noteq> length bins - 1 then Inl ValueError
              else Inr (map (\<lambda>v. let ids = (if v = hd bins then 1
                                               else searchsorted_left bins v)
                                    in if ids = length bins \<or> ids = 0 then None
                                       else Some (labels ! (ids - 1))) x))"

text \<open>
  The spending segment of \<^verbatim>\<open>create_customer_analytics\<close> (lines 445 and 446), from
  the column Total\_Spent of the customer metrics, which holds the customers' sums of
  Sales Amount rounded to 2 decimals.
\<close>

datatype segment = Low | Medium | High | Premium

fun rank :: "segment \<Rightarrow> nat" where
  "rank Low = 0"
| "rank Medium = 1"
| "rank High = 2"
| "rank Premium = 3"

definition total_spent :: "('k::linorder) enriched list \<Rightarrow> real list" where
  "total_spent data = map (\<lambda>m. num_real (Total_Spent m)) (customer_metrics data)"

definition spending_segment :: "('k::linorder) enriched list \<Rightarrow> error + segment option list" where
  "spending_segment data = qcut (total_spent data) 4 [Low, Medium, High, Premium]"

text \<open>The label of a value between three cut points, each cut point in the lower bin.\<close>

definition segment_of :: "real \<Rightarrow> real \<Rightarrow> real \<Rightarrow> real \<Rightarrow> segment" where
  "segment_of q1 q2 q3 v =
     (if v \<le> q1 then Low else if v \<le> q2 then Medium else if v \<le> q3 then High else Premium)"

section \<open>Trend and forecast\<close>

text \<open>
  \<^verbatim>\<open>scipy.stats.linregress(x, y)\<close>, as the forecasting code calls it, returning
  slope, intercept and r. The repository pins no release of the library, and two things
  differ between releases; they are the fields of \<open>scipy\<close>: the r returned when
  \<open>ssxm\<close> or \<open>ssym\<close> is zero (0.0 in release 1.15, NaN in release 1.17), and the
  outcome on empty input (ValueError in release 1.15, NaN results in release 1.17).
  Inputs of
  different lengths raise ValueError, as does more than one x value when all are
  identical. \<open>ssxm\<close>, \<open>ssxym\<close> and \<open>ssym\<close> are the entries of
  \<^verbatim>\<open>np.cov(x, y, bias=1)\<close>. With variance on both sides r is the quotient, clipped
  to the interval from -1 to 1. The slope is the float quotient of \<open>ssxym\<close> and
  \<open>ssxm\<close>.
\<close>

record scipy =
  r_zero_variance :: fval
  empty_input :: "error + fval \<times> fval \<times> fval"

definition scipy_1_15 :: scipy where
  "scipy_1_15 = \<lparr>r_zero_variance = Fin 0, empty_input = Inl ValueError\<rparr>"

definition scipy_1_17 :: scipy where
  "scipy_1_17 = \<lparr>r_zero_variance = NaN, empty_input = Inr (NaN, NaN, NaN)\<rparr>"

definition mean_of :: "real list \<Rightarrow> real" where
  "mean_of xs = sum_list xs / real (length xs)"

definition linregress :: "scipy \<Rightarrow> real list \<Rightarrow> real list \<Rightarrow> error + fval \<times> fval \<times> fval" where
  "linregress lib x y =
     (if length x \<noteq> length y then Inl ValueError
      else if x = [] then empty_input lib
      else if 1 < length x \<and> Max (set x) = Min (set x) then Inl ValueError
      else
        let xmean = mean_of x;
            ymean = mean_of y;
            ssxm = mean_of (map (\<lambda>a. (a - xmean) * (a - xmean)) x);
            ssxym = mean_of (map (\<lambda>(a, b). (a - xmean) * (b - ymean)) (zip x y));
            ssym = mean_of (map (\<lambda>b. (b - ymean) * (b - ymean)) y);
            r = (if ssxm = 0 \<or> ssym = 0 then r_zero_variance lib
                 else let q = ssxym / sqrt (ssxm * ssym)
                      in Fin (if 1 < q then 1 else if q < - 1 then - 1 else q));
            slope = fdiv (Fin ssxym) (Fin ssxm);
            intercept = fsub (Fin ymean) (fmul slope (Fin xmean))
        in Inr (slope, intercept, r))"

text \<open>
  \<^verbatim>\<open>np.arange(n)\<close>, and the forecast of \<^verbatim>\<open>create_predictive_insights\<close>:
  \<^verbatim>\<open>future_x = np.arange(n, n + future_months)\<close>,
  \<^verbatim>\<open>future_sales = slope * future_x + intercept\<close>. The code fixes
  \<^verbatim>\<open>future_months = 6\<close>; \<open>r_squared\<close> is the \<^verbatim>\<open>r_value**2\<close> shown with
  the trend line.
\<close>

definition arange :: "nat \<Rightarrow> nat \<Rightarrow> real list" where
  "arange a b = map real [a..<b]"

definition future_sales :: "fval \<Rightarrow> fval \<Rightarrow> nat \<Rightarrow> nat \<Rightarrow> fval list" where
  "future_sales slope intercept n future_months =
     map (\<lambda>fx. fadd (fmul slope (Fin fx)) intercept) (arange n (n + future_months))"

definition r_squared :: "fval \<Rightarrow> fval" where
  "r_squared r_value = fmul r_value r_value"

definition sales_forecasting :: "scipy \<Rightarrow> real list \<Rightarrow> error + fval \<times> fval list" where
  "sales_forecasting lib monthly_sales =
     (case linregress lib (arange 0 (length monthly_sales)) monthly_sales of
        Inl e \<Rightarrow> Inl e
      | Inr (slope, intercept, r_value) \<Rightarrow>
          Inr (r_squared r_value, future_sales slope intercept (length monthly_sales) 6))"

section \<open>Correlation matrix\<close>

text \<open>
  \<^verbatim>\<open>DataFrame.corr()\<close> with its defaults (Pearson, at least one observation) on
  a frame given by its columns. For each pair of columns the rows where both cells are
  finite are run through Welford's update, as the library does; the coefficient is
  missing (NaN) when there is no such row or the divisor is zero, and is clipped to the
  interval from -1 to 1 otherwise. The library computes the entries \<open>(i, j)\<close> with
  \<open>j \<le> i\<close> and writes each to both \<open>(i, j)\<close> and \<open>(j, i)\<close>.
\<close>

record welford =
  nobs :: nat
  meanx :: real
  meany :: real
  ssqdm_x :: real
  ssqdm_y :: real
  covxy :: real

definition welford_init :: welford where
  "welford_init = \<lparr>nobs = 0, meanx = 0, meany = 0, ssqdm_x = 0, ssqdm_y = 0, covxy = 0\<rparr>"

definition welford_step :: "welford \<Rightarrow> real \<times> real \<Rightarrow> welford" where
  "welford_step w p =
     (let vx = fst p; vy = snd p;
          n = nobs w + 1;
          dx = vx - meanx w;
          dy = vy - meany w;
          mx = meanx w + 1 / real n * dx;
          my = meany w + 1 / real n * dy
      in \<lparr>nobs = n, meanx = mx, meany = my,
          ssqdm_x = ssqdm_x w + (vx - mx) * dx,
          ssqdm_y = ssqdm_y w + (vy - my) * dy,
          covxy = covxy w + (vx - mx) * dy\<rparr>)"

fun finite_pairs :: "fval list \<Rightarrow> fval list \<Rightarrow> (real \<times> real) list" where
  "finite_pairs (Fin a # xs) (Fin b # ys) = (a, b) # finite_pairs xs ys"
| "finite_pairs (x # xs) (y # ys) = finite_pairs xs ys"
| "finite_pairs xs ys = []"

definition nancorr_pair :: "fval list \<Rightarrow> fval list \<Rightarrow> fval" where
  "nancorr_pair xs ys =
     (let w = foldl welford_step welford_init (finite_pairs xs ys)
      in if nobs w < 1 then NaN
         else let divisor = sqrt (ssqdm_x w * ssqdm_y w)
              in if divisor \<noteq> 0
                 then let v = covxy w / divisor
                      in Fin (if 1 < v then 1 else if v < - 1 then - 1 else v)
                 else NaN)"

definition corr_entry :: "fval list list \<Rightarrow> nat \<Rightarrow> nat \<Rightarrow> fval" where
  "corr_entry cols i j =
     (if j \<le> i then nancorr_pair (cols ! i) (cols ! j) else nancorr_pair (cols ! j) (cols ! i))"

definition corr :: "fval list list \<Rightarrow> fval list list" where
  "corr cols =
     map (\<lambda>i. map (\<lambda>j. corr_entry cols i j) [0..<length cols]) [0..<length cols]"

text \<open>The finite values of a column, in order.\<close>

fun finite_values :: "fval list \<Rightarrow> real list" where
  "finite_values [] = []"
| "finite_values (Fin a # xs) = a # finite_values xs"
| "finite_values (x # xs) = finite_values xs"

text \<open>
  What Welford's update has computed after the finite values \<open>vs\<close> of one column paired
  with itself: both running means agree, the three accumulated sums agree, and the sum
  is positive exactly when two of the values differ.
\<close>

definition diag_ok :: "welford \<Rightarrow> real list \<Rightarrow> bool" where
  "diag_ok w vs \<longleftrightarrow>
     nobs w = length vs \<and> meany w = meanx w \<and> ssqdm_y w = ssqdm_x w \<and> covxy w = ssqdm_x w \<and>
     0 \<le> ssqdm_x w \<and>
     (if \<exists>a\<in>set vs. \<exists>b\<in>set vs. a \<noteq> b then 0 < ssqdm_x w
      else ssqdm_x w = 0 \<and> (\<forall>a\<in>set vs. meanx w = a))"

text \<open>
  A frame of two columns with varying values (the second with a null), and a frame
  whose only column is constant.
\<close>

definition varying_columns :: "fval list list" where
  "varying_columns = [[Fin 1, Fin 2, Fin 3], [Fin 2, NaN, Fin 5]]"

definition constant_column :: "fval list list" where
  "constant_column = [[Fin 3, Fin 3]]"

section \<open>Recommendations\<close>

text \<open>
  \<^verbatim>\<open>generate_business_recommendations\<close>. A recommendation is a dict with a
  category, a priority and two formatted texts; of the texts the model keeps what is
  formatted into them: the group labels (\<open>subjects\<close>) and the numbers (\<open>figures\<close>).
\<close>

record 'k recommendation =
  category :: string
  priority :: string
  subjects :: "'k list"
  figures :: "fval list"

text \<open>
  \<^verbatim>\<open>idxmax\<close> and \<^verbatim>\<open>idxmin\<close> skip missing values and give the first label of
  the largest (smallest) value. On an empty column they raise ValueError; when every
  value is missing the label they give is missing and the lookup that follows fails.
\<close>

definition finite_entries :: "('k \<times> fval) list \<Rightarrow> ('k \<times> real) list" where
  "finite_entries s = concat (map (\<lambda>(k, v). case v of Fin a \<Rightarrow> [(k, a)] | _ \<Rightarrow> []) s)"

definition idxmax :: "('k \<times> fval) list \<Rightarrow> error + 'k \<times> real" where
  "idxmax s =
     (if s = [] then Inl ValueError
      else let fs = finite_entries s
           in if fs = [] then Inl KeyError
              else Inr (hd (filter (\<lambda>(k, a). a = Max (set (map snd fs))) fs)))"

definition idxmin :: "('k \<times> fval) list \<Rightarrow> error + 'k \<times> real" where
  "idxmin s =
     (if s = [] then Inl ValueError
      else let fs = finite_entries s
           in if fs = [] then Inl KeyError
              else Inr (hd (filter (\<lambda>(k, a). a = Min (set (map snd fs))) fs)))"

text \<open>Revenue growth opportunities: \<^verbatim>\<open>index[0]\<close> raises IndexError on no group.\<close>

definition geographic_expansion ::
  "('k::linorder) enriched list \<Rightarrow> error + 'k recommendation" where
  "geographic_expansion data =
     (let country_sales = sort_values_desc (groupby_sum Country Sales_Amount data)
      in if country_sales = [] then Inl IndexError
         else let top_country = hd country_sales;
                  lowest_country = last country_sales
              in Inr \<lparr>category = ''Geographic Expansion'', priority = ''High'',
                      subjects = [fst lowest_country, fst top_country],
                      figures = [Fin (num_real (snd lowest_country) / 1000000),
                                 Fin (num_real (snd top_country) / 1000000),
                                 Fin (num_real (num_sub (snd top_country)
                                                  (snd lowest_country)) / 1000000)]\<rparr>)"

definition product_strategy :: "('k::linorder) enriched list \<Rightarrow> error + 'k recommendation" where
  "product_strategy data =
     (let product_profit = sort_values_desc (groupby_sum Product Profit data)
      in if product_profit = [] then Inl IndexError
         else let top_profitable_product = hd product_profit
              in Inr \<lparr>category = ''Product Strategy'', priority = ''High'',
                      subjects = [fst top_profitable_product],
                      figures = [Fin (num_real (snd top_profitable_product) / 1000)]\<rparr>)"

text \<open>
  Customer retention: the 0.8 quantile of no customer is NaN, and no sum is above NaN.
\<close>

definition customer_retention :: "('k::linorder) enriched list \<Rightarrow> 'k recommendation" where
  "customer_retention data =
     (let customer_metrics =
            map (\<lambda>(k, v). num_real v) (groupby_sum CustomerKey Sales_Amount data)
      in if customer_metrics = []
         then \<lparr>category = ''Customer Retention'', priority = ''Medium'',
               subjects = [], figures = [Fin 0, NaN]\<rparr>
         else let q = quantile customer_metrics (8 / 10);
                  high_value_customers = length (filter (\<lambda>v. q < v) customer_metrics)
              in \<lparr>category = ''Customer Retention'', priority = ''Medium'',
                  subjects = [],
                  figures = [Fin (real high_value_customers),
                             Fin (q * real high_value_customers / 1000000)]\<rparr>)"

text \<open>Channel optimisation: guarded by \<^verbatim>\<open>if len(channel_performance) > 1\<close>.\<close>

definition channel_strategy :: "('k::linorder) enriched list \<Rightarrow> 'k recommendation list" where
  "channel_strategy data =
     (let channel_performance = groupby_sum Channel Sales_Amount data
      in if 1 < length channel_performance
         then let top_channel = hd channel_performance
              in [\<lparr>category = ''Channel Strategy'', priority = ''Medium'',
                   subjects = [fst top_channel],
                   figures = [Fin (num_real (snd top_channel) / 1000000)]\<rparr>]
         else [])"

definition seasonal_planning :: "('k::linorder) enriched list \<Rightarrow> error + 'k recommendation" where
  "seasonal_planning data =
     (let monthly_avg = groupby_mean Month_Name Sales_Amount data
      in case idxmax monthly_avg of
           Inl e \<Rightarrow> Inl e
         | Inr peak_month \<Rightarrow>
             (case idxmin monthly_avg of
                Inl e \<Rightarrow> Inl e
              | Inr low_month \<Rightarrow>
                  Inr \<lparr>category = ''Seasonal Planning'', priority = ''Medium'',
                       subjects = [fst peak_month, fst low_month],
                       figures = [Fin ((snd peak_month - snd low_month) / 1000)]\<rparr>))"

definition profitability :: "'k enriched list \<Rightarrow> summary \<Rightarrow> 'k recommendation" where
  "profitability data summary =
     \<lparr>category = ''Profitability'', priority = ''High'', subjects = [],
      figures = [nanmean (map Profit_Margin data),
                 Fin (num_real (total_profit summary) / 1000000)]\<rparr>"

definition generate_business_recommendations ::
  "('k::linorder) enriched list \<Rightarrow> summary \<Rightarrow> error + 'k recommendation list" where
  "generate_business_recommendations data summary =
     and_then (geographic_expansion data) (\<lambda>geo.
     and_then (product_strategy data) (\<lambda>prod.
     and_then (seasonal_planning data) (\<lambda>season.
       Inr ([geo, prod, customer_retention data] @ channel_strategy data @
            [season, profitability data summary]))))"

section \<open>Example data\<close>

text \<open>
  A sales line of customer 1 with a fiscal year, a float64 revenue and a float64 cost;
  all other keys are 1 and the order date is day 1.
\<close>

definition sale_line :: "nat \<Rightarrow> real \<Rightarrow> real \<Rightarrow> nat sale" where
  "sale_line year amount cost =
     \<lparr>CustomerKey = Some 1, ProductKey = Some 1, Country = Some 1, Product = Some 1,
      Category = Some 1, Channel = Some 1, Fiscal_Year = Some year, Date = Some 1,
      Month_Name = Some 1, Sales_Amount = F64 amount, Total_Product_Cost = F64 cost,
      Order_Quantity = F64 1\<rparr>"

text \<open>The same line with an int64 revenue and an int64 cost.\<close>

definition int_line :: "int \<Rightarrow> int \<Rightarrow> nat sale" where
  "int_line amount cost =
     (sale_line 2020 0 0)\<lparr>Sales_Amount := I64 amount, Total_Product_Cost := I64 cost\<rparr>"

text \<open>
  Two lines with revenues 100 and 300 and costs 60 and 150; one line with no revenue and
  a cost of 5; two lines with no revenue and costs 5 and -5; two lines in two fiscal
  years; two lines of two channels; a line that matched no territory, so its country is
  null; two int64 lines with revenue \<open>2 ^ 62\<close> each and costs \<open>2 ^ 62\<close> and 0; a
  line that matched no date; a line with revenue 0.004 and cost 0.003; and the lines of
  four customers with revenues 1.001 to 1.004, and of five customers with revenues 1
  to 5.
\<close>

definition two_lines :: "nat enriched list" where
  "two_lines = add_calculated_fields [sale_line 2020 100 60, sale_line 2020 300 150]"

definition free_line :: "nat enriched list" where
  "free_line = add_calculated_fields [sale_line 2020 0 5]"

definition free_lines :: "nat enriched list" where
  "free_lines = add_calculated_fields [sale_line 2020 0 5, sale_line 2020 0 (- 5)]"

definition two_years :: "nat enriched list" where
  "two_years = add_calculated_fields [sale_line 2020 100 60, sale_line 2021 300 150]"

definition two_channels :: "nat enriched list" where
  "two_channels =
     add_calculated_fields
       [sale_line 2020 100 60, (sale_line 2020 300 150)\<lparr>Channel := Some 2\<rparr>]"

definition no_country :: "nat enriched list" where
  "no_country = add_calculated_fields [(sale_line 2020 100 60)\<lparr>Country := None\<rparr>]"

definition big_lines :: "nat enriched list" where
  "big_lines = add_calculated_fields [int_line (2 ^ 62) (2 ^ 62), int_line (2 ^ 62) 0]"

definition undated :: "nat enriched list" where
  "undated = add_calculated_fields [(sale_line 2020 100 60)\<lparr>Date := None\<rparr>]"

definition small_line :: "nat enriched list" where
  "small_line = add_calculated_fields [sale_line 2020 (4 / 1000) (3 / 1000)]"

definition customer_line :: "nat \<Rightarrow> real \<Rightarrow> nat sale" where
  "customer_line k amount = (sale_line 2020 amount 0)\<lparr>CustomerKey := Some k\<rparr>"

definition close_customers :: "nat enriched list" where
  "close_customers =
     add_calculated_fields
       [customer_line 1 (1001 / 1000), customer_line 2 (1002 / 1000),
        customer_line 3 (1003 / 1000), customer_line 4 (1004 / 1000)]"

definition five_customers :: "nat enriched list" where
  "five_customers =
     add_calculated_fields
       [customer_line 1 1, customer_line 2 2, customer_line 3 3, customer_line 4 4,
        customer_line 5 5]"

section \<open>Aggregates as the specification names them\<close>

text \<open>
  For the statements about the metrics, the summary and the recommendations, written
  without the grouping: the sum of a column over the rows that carry one key, the
  percentage of one sum in another, the sum of the revenues of all countries, the
  fiscal years and the channels that occur in the data, and the revenue of one fiscal
  year.
\<close>

definition group_sum :: "('r \<Rightarrow> 'k option) \<Rightarrow> ('r \<Rightarrow> num) \<Rightarrow> 'r list \<Rightarrow> 'k \<Rightarrow> num" where
  "group_sum key val data k = series_sum val data (filter (\<lambda>r. key r = Some k) data)"

definition percent_ratio :: "num \<Rightarrow> num \<Rightarrow> fval" where
  "percent_ratio a b = fmul (fdiv (to_fval a) (to_fval b)) (Fin 100)"

definition country_total :: "('k::linorder) enriched list \<Rightarrow> num" where
  "country_total data =
     (let revenues = map (group_sum Country Sales_Amount data) (group_keys Country data)
      in column_sum revenues revenues)"

definition fiscal_years :: "'k enriched list \<Rightarrow> 'k set" where
  "fiscal_years data = set (List.map_filter Fiscal_Year data)"

definition year_revenue :: "'k enriched list \<Rightarrow> 'k \<Rightarrow> num" where
  "year_revenue data y =
     series_sum Sales_Amount data (filter (\<lambda>r. Fiscal_Year r = Some y) data)"

definition channels :: "'k enriched list \<Rightarrow> 'k set" where
  "channels data = set (List.map_filter Channel data)"

section \<open>Properties\<close>

subsection \<open>Row counts of the merge\<close>

lemma distinct_filter_le1:
  "distinct (map f xs) \<Longrightarrow> length (filter (\<lambda>r. f r = v) xs) \<le> 1"
  by (induction xs) (auto simp: filter_empty_conv image_iff)

lemma length_concat_fanout:
  "length (concat (map (\<lambda>l. if g l = [] then [h l] else map (k l) (g l)) xs))
     = sum_list (map (\<lambda>l. max 1 (length (g l))) xs)"
  by (induction xs) (auto simp: max_def Suc_le_eq)

lemma merge_rows:
  assumes "merge compatible left right left_on right_on = Inr E"
  shows "length (rws E) =
     sum_list (map (\<lambda>l. max 1 (length (matches right (index_of right_on (columns right))
                                   (cell l (index_of left_on (columns left)))))) (rws left))"
  using assms
  by (auto simp: merge_def Let_def length_concat_fanout split: if_splits)

lemma merge_rows_unique:
  assumes "merge compatible left right left_on right_on = Inr E"
    and "distinct (key_values right right_on)"
  shows "length (rws E) = length (rws left)"
proof -
  have "\<And>v. length (matches right (index_of right_on (columns right)) v) \<le> 1"
    using assms(2) unfolding matches_def key_values_def by (rule distinct_filter_le1)
  then have "\<And>l. max 1 (length (matches right (index_of right_on (columns right))
                                   (cell l (index_of left_on (columns left))))) = 1"
    by (simp add: max_def le_antisym)
  then show ?thesis
    using merge_rows[OF assms(1)] by (simp add: sum_list_triv)
qed

lemma merge_rows_ge:
  assumes "merge compatible left right left_on right_on = Inr E"
  shows "length (rws left) \<le> length (rws E)"
proof -
  have "sum_list (map (\<lambda>l. 1::nat) (rws left)) \<le> length (rws E)"
    unfolding merge_rows[OF assms] by (rule sum_list_mono) simp
  then show ?thesis by (simp add: sum_list_triv)
qed

lemma and_then_Inr: "and_then m f = Inr y \<Longrightarrow> \<exists>x. m = Inr x \<and> f x = Inr y"
  by (cases m) (auto simp: and_then_def)

lemma merge_sheet_rows_unique:
  assumes "merge_sheet compatible data sheet lo ro left = Inr E" "unique_keys data"
    "(sheet, ro) \<in> set dimension_keys"
  shows "length (rws E) = length (rws left)"
proof -
  from assms(1) obtain right where r: "data sheet = Some right"
    and m: "merge compatible left right lo ro = Inr E"
    by (auto simp: merge_sheet_def split: option.splits)
  from assms(2,3) r have "distinct (key_values right ro)"
    by (auto simp: unique_keys_def list_all_iff)
  with m show ?thesis by (rule merge_rows_unique)
qed

lemma merge_sheet_rows_ge:
  assumes "merge_sheet compatible data sheet lo ro left = Inr E"
  shows "length (rws left) \<le> length (rws E)"
  using assms by (auto simp: merge_sheet_def split: option.splits dest: merge_rows_ge)

lemma merge_chain_steps:
  assumes "data ''Sales_data'' = Some sales_data" and "comprehensive_merge compatible data = Inr E"
  obtains f1 f2 f3 f4 f5 where
    "merge_sheet compatible data ''Date_data'' ''OrderDateKey'' ''DateKey'' sales_data = Inr f1"
    "merge_sheet compatible data ''Sales Territory_data'' ''SalesTerritoryKey'' ''SalesTerritoryKey'' f1
       = Inr f2"
    "merge_sheet compatible data ''Product_data'' ''ProductKey'' ''ProductKey'' f2 = Inr f3"
    "merge_sheet compatible data ''Customer_data'' ''CustomerKey'' ''CustomerKey'' f3 = Inr f4"
    "merge_sheet compatible data ''Sales Order_data'' ''SalesOrderLineKey'' ''SalesOrderLineKey'' f4
       = Inr f5"
    "merge_sheet compatible data ''Reseller_data'' ''ResellerKey'' ''ResellerKey'' f5 = Inr E"
  using assms unfolding comprehensive_merge_def by (auto dest!: and_then_Inr)

lemma example_sheets_unique: "unique_keys example_sheets"
  by (simp add: unique_keys_def dimension_keys_def example_sheets_def example_sales_def
      key_values_def cell_def)

lemma example_sheets_merge: "\<exists>E. comprehensive_merge numeric_keys example_sheets = Inr E"
  by (simp add: comprehensive_merge_def merge_sheet_def and_then_def merge_def numeric_keys_def key_values_def example_sheets_def
      example_sales_def matches_def cell_def drop_at_def suffixed_def Let_def)

lemma example_sheets_sales: "example_sheets ''Sales_data'' = Some example_sales"
  by (simp add: example_sheets_def)

text \<open>
  C1. When every dimension sheet holds each value of its join key at most once, the
  frame produced by the chain of left merges of Sales\_data with the Date, Sales
  Territory, Product, Customer, Sales Order and Reseller sheets has exactly as many rows
  as Sales\_data: no sales row is lost and none is duplicated.
\<close>

theorem enrich_row_count:
  assumes "data ''Sales_data'' = Some sales_data" and "unique_keys data"
    and "comprehensive_merge compatible data = Inr E"
  shows "length (rws E) = length (rws sales_data)"
proof -
  from assms(1,3) obtain f1 f2 f3 f4 f5 where
    m1: "merge_sheet compatible data ''Date_data'' ''OrderDateKey'' ''DateKey'' sales_data = Inr f1" and
    m2: "merge_sheet compatible data ''Sales Territory_data'' ''SalesTerritoryKey'' ''SalesTerritoryKey'' f1
           = Inr f2" and
    m3: "merge_sheet compatible data ''Product_data'' ''ProductKey'' ''ProductKey'' f2 = Inr f3" and
    m4: "merge_sheet compatible data ''Customer_data'' ''CustomerKey'' ''CustomerKey'' f3 = Inr f4" and
    m5: "merge_sheet compatible data ''Sales Order_data'' ''SalesOrderLineKey'' ''SalesOrderLineKey'' f4
           = Inr f5" and
    m6: "merge_sheet compatible data ''Reseller_data'' ''ResellerKey'' ''ResellerKey'' f5 = Inr E"
    by (rule merge_chain_steps)
  note u = assms(2)
  have "length (rws f1) = length (rws sales_data)"
    by (rule merge_sheet_rows_unique[OF m1 u]) (simp add: dimension_keys_def)
  moreover have "length (rws f2) = length (rws f1)"
    by (rule merge_sheet_rows_unique[OF m2 u]) (simp add: dimension_keys_def)
  moreover have "length (rws f3) = length (rws f2)"
    by (rule merge_sheet_rows_unique[OF m3 u]) (simp add: dimension_keys_def)
  moreover have "length (rws f4) = length (rws f3)"
    by (rule merge_sheet_rows_unique[OF m4 u]) (simp add: dimension_keys_def)
  moreover have "length (rws f5) = length (rws f4)"
    by (rule merge_sheet_rows_unique[OF m5 u]) (simp add: dimension_keys_def)
  moreover have "length (rws E) = length (rws f5)"
    by (rule merge_sheet_rows_unique[OF m6 u]) (simp add: dimension_keys_def)
  ultimately show ?thesis by simp
qed

theorem enrich_row_count_witness:
  "unique_keys example_sheets \<and>
   (\<exists>E. comprehensive_merge numeric_keys example_sheets = Inr E \<and> length (rws E) = 2)"
proof -
  from example_sheets_merge obtain E where E: "comprehensive_merge numeric_keys example_sheets = Inr E" ..
  have "length (rws E) = 2"
    using enrich_row_count[OF example_sheets_sales example_sheets_unique E]
    by (simp add: example_sales_def)
  with E example_sheets_unique show ?thesis by blast
qed

text \<open>
  C4 (as the code has it). The merges are called without a validation of the keys, and
  there is no AmbiguousJoinKey error. A merge that completes yields, for every left row,
  one row for each right row with an equal key, and one row when there is none; so the
  enriched frame has at least as many rows as Sales\_data, and more when a matched key
  is duplicated.
\<close>

theorem merge_fans_out:
  "(merge compatible left right lo ro = Inr F \<longrightarrow>
      length (rws F) =
        sum_list (map (\<lambda>l. max 1 (length (matches right (index_of ro (columns right))
                                      (cell l (index_of lo (columns left)))))) (rws left))) \<and>
   (data ''Sales_data'' = Some sales_data \<and> comprehensive_merge compatible data = Inr E \<longrightarrow>
      length (rws sales_data) \<le> length (rws E))"
proof (intro conjI impI)
  assume "merge compatible left right lo ro = Inr F"
  then show "length (rws F) =
        sum_list (map (\<lambda>l. max 1 (length (matches right (index_of ro (columns right))
                                      (cell l (index_of lo (columns left)))))) (rws left))"
    by (rule merge_rows)
next
  assume a: "data ''Sales_data'' = Some sales_data \<and> comprehensive_merge compatible data = Inr E"
  then obtain f1 f2 f3 f4 f5 where
    m1: "merge_sheet compatible data ''Date_data'' ''OrderDateKey'' ''DateKey'' sales_data = Inr f1" and
    m2: "merge_sheet compatible data ''Sales Territory_data'' ''SalesTerritoryKey'' ''SalesTerritoryKey'' f1
           = Inr f2" and
    m3: "merge_sheet compatible data ''Product_data'' ''ProductKey'' ''ProductKey'' f2 = Inr f3" and
    m4: "merge_sheet compatible data ''Customer_data'' ''CustomerKey'' ''CustomerKey'' f3 = Inr f4" and
    m5: "merge_sheet compatible data ''Sales Order_data'' ''SalesOrderLineKey'' ''SalesOrderLineKey'' f4
           = Inr f5" and
    m6: "merge_sheet compatible data ''Reseller_data'' ''ResellerKey'' ''ResellerKey'' f5 = Inr E"
    by (blast elim: merge_chain_steps)
  show "length (rws sales_data) \<le> length (rws E)"
    using merge_sheet_rows_ge[OF m1] merge_sheet_rows_ge[OF m2] merge_sheet_rows_ge[OF m3]
      merge_sheet_rows_ge[OF m4] merge_sheet_rows_ge[OF m5] merge_sheet_rows_ge[OF m6]
    by linarith
qed

lemma fanout_sheets_sales: "fanout_sheets ''Sales_data'' = Some example_sales"
  by (simp add: fanout_sheets_def example_sheets_def)

lemma example_sales_rows: "length (rws example_sales) = 2"
  by (simp add: example_sales_def)

lemma twin_products_merge:
  "\<exists>F. merge numeric_keys example_sales twin_products ''ProductKey'' ''ProductKey'' = Inr F"
  by (simp add: merge_def Let_def example_sales_def twin_products_def numeric_keys_def)

lemma twin_products_matches:
  "(\<Sum>l\<leftarrow>rws example_sales.
      max 1 (length (matches twin_products (index_of ''ProductKey'' (columns twin_products))
                       (cell l (index_of ''ProductKey'' (columns example_sales)))))) = 4"
  by (simp add: example_sales_def twin_products_def matches_def cell_def)

lemma fanout_sheets_merge:
  "\<exists>E. comprehensive_merge numeric_keys fanout_sheets = Inr E \<and> length (rws E) = 4"
  by (simp add: comprehensive_merge_def merge_sheet_def and_then_def merge_def numeric_keys_def key_values_def fanout_sheets_def
      example_sheets_def example_sales_def twin_products_def matches_def cell_def drop_at_def
      suffixed_def Let_def)

theorem merge_fans_out_witness:
  "(\<exists>F. merge numeric_keys example_sales twin_products ''ProductKey'' ''ProductKey'' = Inr F \<and>
        length (rws F) = 4) \<and>
   (\<exists>E. comprehensive_merge numeric_keys fanout_sheets = Inr E \<and> 2 \<le> length (rws E))"
proof -
  from twin_products_merge obtain F
    where F: "merge numeric_keys example_sales twin_products ''ProductKey'' ''ProductKey'' = Inr F" ..
  from fanout_sheets_merge obtain E where E: "comprehensive_merge numeric_keys fanout_sheets = Inr E"
    by blast
  note t = merge_fans_out[where compatible = numeric_keys
      and left = example_sales and right = twin_products
      and lo = "''ProductKey''" and ro = "''ProductKey''" and F = F
      and data = fanout_sheets and sales_data = example_sales and E = E]
  from t F have "length (rws F) = 4"
    by (simp only: twin_products_matches)
  moreover from t fanout_sheets_sales E have "2 \<le> length (rws E)"
    by (simp only: example_sales_rows)
  ultimately show ?thesis using F E by blast
qed

text \<open>
  C4 as stated fails: with the product key 5 on two rows of the product sheet the join
  completes, and the two sales lines become four rows.
\<close>

theorem duplicate_key_counterexample:
  "\<not> unique_keys fanout_sheets \<and>
   (\<exists>E. comprehensive_merge numeric_keys fanout_sheets = Inr E \<and> length (rws E) = 4)"
  using fanout_sheets_merge
  by (simp add: unique_keys_def dimension_keys_def fanout_sheets_def example_sheets_def
      twin_products_def key_values_def cell_def)

subsection \<open>Churn risk\<close>

text \<open>
  C5. The churn-risk label is a total function of the number of days since the last
  purchase: Active exactly when days is at most 30, At Risk exactly when days is above 30
  and at most 90, High Risk exactly when days is above 90 and at most 180, Churned exactly
  when days is above 180; at the boundaries, 30 is Active, 31 and 90 are At Risk, 91 is
  High Risk and 181 is Churned.
\<close>

theorem churn_risk_thresholds:
  "(churn_risk days = Active) = (days \<le> 30) \<and>
   (churn_risk days = At_Risk) = (30 < days \<and> days \<le> 90) \<and>
   (churn_risk days = High_Risk) = (90 < days \<and> days \<le> 180) \<and>
   (churn_risk days = Churned) = (180 < days) \<and>
   churn_risk 30 = Active \<and> churn_risk 31 = At_Risk \<and> churn_risk 90 = At_Risk \<and>
   churn_risk 91 = High_Risk \<and> churn_risk 181 = Churned"
  by (simp add: churn_risk_def)

subsection \<open>Grouping\<close>

lemma sorted_last_Max:
  fixes xs :: "'a::linorder list"
  assumes "sorted xs" "xs \<noteq> []"
  shows "last xs = Max (set xs)"
proof -
  have "\<And>y. y \<in> set xs \<Longrightarrow> y \<le> last xs"
  proof -
    fix y assume "y \<in> set xs"
    then obtain i where i: "i < length xs" "xs ! i = y" by (auto simp: in_set_conv_nth)
    then have "xs ! i \<le> xs ! (length xs - 1)"
      using assms(1) by (intro sorted_nth_mono) auto
    with i assms(2) show "y \<le> last xs" by (simp add: last_conv_nth)
  qed
  moreover have "last xs \<in> set xs" using assms(2) by simp
  ultimately show ?thesis by (intro Max_eqI[symmetric]) auto
qed

lemma set_butlast_distinct:
  assumes "distinct xs" "xs \<noteq> []"
  shows "set (butlast xs) = set xs - {last xs}"
proof -
  have "xs = butlast xs @ [last xs]" using assms(2) by simp
  then have "distinct (butlast xs @ [last xs])" "set xs = set (butlast xs @ [last xs])"
    using assms(1) by simp_all
  then show ?thesis by auto
qed

lemma in_map_filter: "x \<in> set (List.map_filter f xs) \<longleftrightarrow> (\<exists>y\<in>set xs. f y = Some x)"
  by (induction xs) (auto simp: map_filter_simps split: option.splits)

lemma group_keys_props:
  "sorted (group_keys key rs)" "distinct (group_keys key rs)"
  "set (group_keys key rs) = set (List.map_filter key rs)"
  by (simp_all add: group_keys_def)

lemma length_group_keys: "length (group_keys key rs) = card (set (List.map_filter key rs))"
proof -
  have "distinct (group_keys key rs)" by (rule group_keys_props)
  then have "card (set (group_keys key rs)) = length (group_keys key rs)" by (rule distinct_card)
  then show ?thesis by (simp add: group_keys_props)
qed

lemma groupby_sum_eq:
  "groupby_sum key val rs = map (\<lambda>k. (k, group_sum key val rs k)) (group_keys key rs)"
  by (simp add: groupby_sum_def group_sum_def group_rows_def)

lemmas row_defs = add_calculated_fields_def Let_def sale.defs enriched.defs sub_columns_def
  int64_column_def sale_line_def

lemmas sum_defs = series_sum_def column_sum_def int64_column_def group_sum_def

subsection \<open>Executive summary\<close>

lemma summary_fields:
  assumes "create_executive_summary data = Inr s"
  shows "avg_profit_margin s = nanmean (map Profit_Margin data)"
    "total_profit s = series_sum Profit data data"
    "total_revenue s = series_sum Sales_Amount data data"
    "yoy_growth s = growth_metrics data"
  using assms by (auto simp: create_executive_summary_def split: option.splits)

lemma dated_rows: "List.map_filter Date data \<noteq> [] \<longleftrightarrow> (\<exists>r\<in>set data. Date r \<noteq> None)"
proof -
  have "List.map_filter Date data \<noteq> [] \<longleftrightarrow> (\<exists>d. d \<in> set (List.map_filter Date data))"
    by (cases "List.map_filter Date data") auto
  then show ?thesis by (auto simp: in_map_filter)
qed

lemma summary_returns:
  assumes "\<exists>r\<in>set data. Date r \<noteq> None"
  shows "\<exists>s. create_executive_summary data = Inr s"
  using assms dated_rows[of data]
  by (simp add: create_executive_summary_def min_date_def max_date_def Let_def)

lemma summary_raises:
  assumes "\<not> (\<exists>r\<in>set data. Date r \<noteq> None)"
  shows "create_executive_summary data = Inl ValueError"
  using assms dated_rows[of data]
  by (simp add: create_executive_summary_def min_date_def max_date_def Let_def)

subsection \<open>Year-over-year growth\<close>

lemma yearly_sales_eq:
  "yearly_sales data =
     map (\<lambda>y. (y, year_revenue data y)) (group_keys Fiscal_Year data)"
proof -
  have "map fst (groupby_sum Fiscal_Year Sales_Amount data) = group_keys Fiscal_Year data"
    by (simp add: groupby_sum_def comp_def)
  then have "sorted (map fst (groupby_sum Fiscal_Year Sales_Amount data))"
    by (simp add: group_keys_props)
  then show ?thesis
    unfolding yearly_sales_def
    by (simp add: sort_key_id_if_sorted groupby_sum_def year_revenue_def group_rows_def)
qed

lemma growth_metrics_one:
  assumes "card (fiscal_years data) \<le> 1"
  shows "growth_metrics data = Fin 0"
proof -
  have "length (group_keys Fiscal_Year data) = card (fiscal_years data)"
    by (simp add: length_group_keys fiscal_years_def)
  with assms show ?thesis
    by (simp add: growth_metrics_def yearly_sales_eq Let_def)
qed

lemma growth_metrics_more:
  assumes c: "1 < card (fiscal_years data)"
  shows "growth_metrics data =
     percent_ratio (num_sub (year_revenue data (Max (fiscal_years data)))
                      (year_revenue data (Max (fiscal_years data - {Max (fiscal_years data)}))))
       (year_revenue data (Max (fiscal_years data - {Max (fiscal_years data)})))"
proof -
  let ?ks = "group_keys Fiscal_Year data"
  have len: "length ?ks = card (fiscal_years data)"
    by (simp add: length_group_keys fiscal_years_def)
  from c have n: "1 < length ?ks" using len by simp
  then have ne: "?ks \<noteq> []" "butlast ?ks \<noteq> []"
    by (auto simp: length_greater_0_conv[symmetric] simp del: length_greater_0_conv)
  have "last ?ks = Max (set ?ks)"
    by (rule sorted_last_Max) (simp_all add: group_keys_props ne)
  then have l: "?ks ! (length ?ks - 1) = Max (fiscal_years data)"
    using ne(1) by (simp add: last_conv_nth group_keys_props fiscal_years_def)
  have "last (butlast ?ks) = Max (set (butlast ?ks))"
    by (rule sorted_last_Max) (simp_all add: sorted_butlast group_keys_props ne)
  moreover have "set (butlast ?ks) = set ?ks - {last ?ks}"
    by (rule set_butlast_distinct) (simp_all add: group_keys_props ne)
  then have "set (butlast ?ks) = fiscal_years data - {Max (fiscal_years data)}"
    using l ne(1) by (simp add: last_conv_nth group_keys_props fiscal_years_def)
  moreover have "last (butlast ?ks) = ?ks ! (length ?ks - 2)"
    using ne(2) n by (simp add: last_conv_nth nth_butlast numeral_2_eq_2)
  ultimately have p:
    "?ks ! (length ?ks - 2) = Max (fiscal_years data - {Max (fiscal_years data)})"
    by simp
  have "growth_metrics data =
     percent_ratio (num_sub (year_revenue data (?ks ! (length ?ks - 1)))
                      (year_revenue data (?ks ! (length ?ks - 2))))
       (year_revenue data (?ks ! (length ?ks - 2)))"
    using n by (simp add: growth_metrics_def yearly_sales_eq Let_def percent_ratio_def)
  then show ?thesis by (simp only: l p)
qed

text \<open>
  C10 (as the code has it). When some row has an order date, the executive summary is
  returned, and its year-over-year growth is computed from the revenue sums per fiscal
  year: with \<open>l\<close> the latest fiscal year in the data and \<open>p\<close> the latest before it,
  it is (revenue of \<open>l\<close> minus revenue of \<open>p\<close>) divided by the revenue of \<open>p\<close>,
  times 100, where the sums and their difference wrap around when the Sales Amount
  column is int64; when the data holds at most one fiscal year it is 0. When no row has
  an order date, the summary raises ValueError and reports no growth figure.
\<close>

theorem yoy_growth_figure:
  "if \<exists>r\<in>set data. Date r \<noteq> None
   then \<exists>s. create_executive_summary data = Inr s \<and>
          (card (fiscal_years data) \<le> 1 \<longrightarrow> yoy_growth s = Fin 0) \<and>
          (1 < card (fiscal_years data) \<longrightarrow>
             (let l = Max (fiscal_years data); p = Max (fiscal_years data - {l})
              in yoy_growth s =
                   percent_ratio (num_sub (year_revenue data l) (year_revenue data p))
                     (year_revenue data p)))
   else create_executive_summary data = Inl ValueError"
proof (cases "\<exists>r\<in>set data. Date r \<noteq> None")
  case True
  then obtain s where s: "create_executive_summary data = Inr s"
    using summary_returns by blast
  then have y: "yoy_growth s = growth_metrics data" by (rule summary_fields)
  have "card (fiscal_years data) \<le> 1 \<longrightarrow> yoy_growth s = Fin 0"
    using y growth_metrics_one by auto
  moreover have "1 < card (fiscal_years data) \<longrightarrow>
             (let l = Max (fiscal_years data); p = Max (fiscal_years data - {l})
              in yoy_growth s =
                   percent_ratio (num_sub (year_revenue data l) (year_revenue data p))
                     (year_revenue data p))"
    using y growth_metrics_more[of data] by (simp add: Let_def)
  ultimately show ?thesis using True s by simp
next
  case False
  then show ?thesis using summary_raises[of data] by simp
qed

lemma two_lines_years: "fiscal_years two_lines = {2020}"
  by (simp add: fiscal_years_def two_lines_def row_defs map_filter_simps)

lemma two_years_years: "fiscal_years two_years = {2020, 2021}"
  by (auto simp: fiscal_years_def two_years_def row_defs map_filter_simps)

lemma two_years_revenue:
  "year_revenue two_years 2020 = F64 100" "year_revenue two_years 2021 = F64 300"
  by (simp_all add: year_revenue_def two_years_def row_defs sum_defs)

lemma two_lines_dated: "\<exists>r\<in>set two_lines. Date r \<noteq> None"
  by (simp add: two_lines_def row_defs)

lemma two_years_dated: "\<exists>r\<in>set two_years. Date r \<noteq> None"
  by (simp add: two_years_def row_defs)

theorem yoy_growth_figure_witness:
  "(\<exists>r\<in>set two_lines. Date r \<noteq> None) \<and> card (fiscal_years two_lines) = 1 \<and>
   (\<exists>s. create_executive_summary two_lines = Inr s \<and> yoy_growth s = Fin 0) \<and>
   (\<exists>r\<in>set two_years. Date r \<noteq> None) \<and> 1 < card (fiscal_years two_years) \<and>
   (\<exists>s. create_executive_summary two_years = Inr s \<and> yoy_growth s = Fin 200)"
proof -
  have c1: "card (fiscal_years two_lines) = 1" by (simp add: two_lines_years)
  have c2: "1 < card (fiscal_years two_years)" by (simp add: two_years_years)
  have m: "Max (fiscal_years two_years) = 2021"
    "Max (fiscal_years two_years - {2021}) = 2020"
    by (simp_all add: two_years_years insert_Diff_if)
  from yoy_growth_figure[of two_lines] two_lines_dated c1
  have g1: "\<exists>s. create_executive_summary two_lines = Inr s \<and> yoy_growth s = Fin 0"
    by auto
  from yoy_growth_figure[of two_years] two_years_dated c2
  have g2: "\<exists>s. create_executive_summary two_years = Inr s \<and> yoy_growth s = Fin 200"
    by (simp add: Let_def m two_years_revenue percent_ratio_def num_sub_def)
  from g1 g2 c1 c2 two_lines_dated two_years_dated show ?thesis by blast
qed

text \<open>
  C10 as stated fails: the growth figure is not 0 for every dataset with exactly one
  fiscal year. A single sales line of fiscal year 2020 that matched no order date makes
  the executive summary raise ValueError, so no growth figure is reported.
\<close>

theorem undated_year_counterexample:
  "card (fiscal_years undated) = 1 \<and> create_executive_summary undated = Inl ValueError"
  by (simp add: fiscal_years_def undated_def row_defs map_filter_simps
      create_executive_summary_def min_date_def max_date_def)

subsection \<open>Profit margin of a row\<close>

lemma length_sub_columns: "length (sub_columns a b) = min (length a) (length b)"
  by (simp add: sub_columns_def)

lemma sub_columns_nth:
  assumes "i < length a" "i < length b"
  shows "sub_columns a b ! i =
     (if int64_column a \<and> int64_column b then I64 (wrap64 (int_of (a ! i) - int_of (b ! i)))
      else if a ! i = NA \<or> b ! i = NA then NA
      else F64 (num_real (a ! i) - num_real (b ! i)))"
  using assms by (simp add: sub_columns_def)

lemma length_add_calculated_fields: "length (add_calculated_fields data) = length data"
  by (simp add: add_calculated_fields_def Let_def length_sub_columns)

lemma add_calculated_fields_nth:
  assumes "i < length data"
  shows "add_calculated_fields data ! i =
     sale.extend (data ! i)
       (enriched.fields
          (sub_columns (map Sales_Amount data) (map Total_Product_Cost data) ! i)
          (percent_ratio
             (sub_columns (map Sales_Amount data) (map Total_Product_Cost data) ! i)
             (Sales_Amount (data ! i))))"
  using assms
  by (simp add: add_calculated_fields_def Let_def length_sub_columns percent_ratio_def)

lemma enriched_cells:
  "Sales_Amount (sale.extend r (enriched.fields p m)) = Sales_Amount r"
  "Total_Product_Cost (sale.extend r (enriched.fields p m)) = Total_Product_Cost r"
  "Profit (sale.extend r (enriched.fields p m)) = p"
  "Profit_Margin (sale.extend r (enriched.fields p m)) = m"
  "sale.truncate (sale.extend r (enriched.fields p m)) = r"
  by (simp_all add: sale.defs enriched.defs)

lemma int64_column_nth: "int64_column xs \<Longrightarrow> i < length xs \<Longrightarrow> is_I64 (xs ! i)"
  by (simp add: int64_column_def list_all_length)

lemma percent_ratio_cases:
  "percent_ratio p s =
     (case (to_fval p, to_fval s) of
        (Fin a, Fin b) \<Rightarrow>
          (if b \<noteq> 0 then Fin (a / b * 100)
           else if a = 0 then NaN else if 0 < a then PInf else NInf)
      | _ \<Rightarrow> NaN)"
  by (cases p; cases s) (simp_all add: percent_ratio_def)

lemma fadd_NInf_left: "v \<noteq> NaN \<Longrightarrow> v \<noteq> PInf \<Longrightarrow> fadd NInf v = NInf"
  by (cases v) simp_all

lemma fadd_PInf_left: "v \<noteq> NaN \<Longrightarrow> v \<noteq> NInf \<Longrightarrow> fadd PInf v = PInf"
  by (cases v) simp_all

lemma foldl_fadd_NInf:
  assumes "\<forall>v\<in>set vs. v \<noteq> NaN \<and> v \<noteq> PInf"
    and "a = NInf \<or> (NInf \<in> set vs \<and> isfinite a)"
  shows "foldl fadd a vs = NInf"
  using assms
proof (induction vs arbitrary: a)
  case Nil
  then show ?case by simp
next
  case (Cons v vs)
  have "fadd a v = NInf \<or> (NInf \<in> set vs \<and> isfinite (fadd a v))"
    using Cons.prems by (cases a; cases v) auto
  moreover have "\<forall>v\<in>set vs. v \<noteq> NaN \<and> v \<noteq> PInf" using Cons.prems(1) by simp
  ultimately show ?case using Cons.IH by simp
qed

lemma foldl_fadd_PInf:
  assumes "\<forall>v\<in>set vs. v \<noteq> NaN \<and> v \<noteq> NInf"
    and "a = PInf \<or> (PInf \<in> set vs \<and> isfinite a)"
  shows "foldl fadd a vs = PInf"
  using assms
proof (induction vs arbitrary: a)
  case Nil
  then show ?case by simp
next
  case (Cons v vs)
  have "fadd a v = PInf \<or> (PInf \<in> set vs \<and> isfinite (fadd a v))"
    using Cons.prems by (cases a; cases v) auto
  moreover have "\<forall>v\<in>set vs. v \<noteq> NaN \<and> v \<noteq> NInf" using Cons.prems(1) by simp
  ultimately show ?case using Cons.IH by simp
qed

lemma foldl_fadd_NaN: "foldl fadd NaN vs = NaN"
  by (induction vs) simp_all

lemma foldl_fadd_after_PInf:
  assumes "NInf \<in> set vs" "a = PInf \<or> a = NaN"
  shows "foldl fadd a vs = NaN"
  using assms
proof (induction vs arbitrary: a)
  case Nil
  then show ?case by simp
next
  case (Cons v vs)
  show ?case
  proof (cases "fadd a v = NaN")
    case True
    then show ?thesis by (simp add: foldl_fadd_NaN)
  next
    case False
    with Cons.prems have "fadd a v = PInf" "v \<noteq> NInf" by (cases a; cases v; auto)+
    with Cons.prems Cons.IH[of "fadd a v"] show ?thesis by simp
  qed
qed

lemma foldl_fadd_after_NInf:
  assumes "PInf \<in> set vs" "a = NInf \<or> a = NaN"
  shows "foldl fadd a vs = NaN"
  using assms
proof (induction vs arbitrary: a)
  case Nil
  then show ?case by simp
next
  case (Cons v vs)
  show ?case
  proof (cases "fadd a v = NaN")
    case True
    then show ?thesis by (simp add: foldl_fadd_NaN)
  next
    case False
    with Cons.prems have "fadd a v = NInf" "v \<noteq> PInf" by (cases a; cases v; auto)+
    with Cons.prems Cons.IH[of "fadd a v"] show ?thesis by simp
  qed
qed

lemma foldl_fadd_both:
  assumes "PInf \<in> set vs" "NInf \<in> set vs"
  shows "foldl fadd a vs = NaN"
  using assms
proof (induction vs arbitrary: a)
  case Nil
  then show ?case by simp
next
  case (Cons v vs)
  show ?case
  proof (cases "PInf \<in> set vs \<and> NInf \<in> set vs")
    case True
    then show ?thesis using Cons.IH by simp
  next
    case False
    with Cons.prems consider "v = PInf" "NInf \<in> set vs" | "v = NInf" "PInf \<in> set vs"
      by auto
    then show ?thesis
    proof cases
      case 1
      then have "fadd a v = PInf \<or> fadd a v = NaN" by (cases a) simp_all
      with 1 show ?thesis by (simp add: foldl_fadd_after_PInf)
    next
      case 2
      then have "fadd a v = NInf \<or> fadd a v = NaN" by (cases a) simp_all
      with 2 show ?thesis by (simp add: foldl_fadd_after_NInf)
    qed
  qed
qed

lemma isnan_iff: "isnan x = (x = NaN)"
  by (cases x) simp_all

lemma nanmean_NInf:
  assumes "NInf \<in> set ms" "PInf \<notin> set ms"
  shows "nanmean ms = NInf"
proof -
  let ?vs = "filter (\<lambda>x. \<not> isnan x) ms"
  have in_vs: "NInf \<in> set ?vs" using assms(1) by simp
  then have ne: "?vs \<noteq> []" by (force simp: filter_empty_conv)
  have "\<forall>v\<in>set ?vs. v \<noteq> NaN \<and> v \<noteq> PInf" using assms(2) by (auto simp: isnan_iff)
  then have "foldl fadd (Fin 0) ?vs = NInf"
    by (rule foldl_fadd_NInf) (simp add: in_vs del: set_filter)
  then show ?thesis using ne by (simp add: nanmean_def Let_def)
qed

lemma nanmean_PInf:
  assumes "PInf \<in> set ms" "NInf \<notin> set ms"
  shows "nanmean ms = PInf"
proof -
  let ?vs = "filter (\<lambda>x. \<not> isnan x) ms"
  have in_vs: "PInf \<in> set ?vs" using assms(1) by simp
  then have ne: "?vs \<noteq> []" by (force simp: filter_empty_conv)
  have "\<forall>v\<in>set ?vs. v \<noteq> NaN \<and> v \<noteq> NInf" using assms(2) by (auto simp: isnan_iff)
  then have "foldl fadd (Fin 0) ?vs = PInf"
    by (rule foldl_fadd_PInf) (simp add: in_vs del: set_filter)
  then show ?thesis using ne by (simp add: nanmean_def Let_def)
qed

lemma nanmean_both:
  assumes "PInf \<in> set ms" "NInf \<in> set ms"
  shows "nanmean ms = NaN"
proof -
  let ?vs = "filter (\<lambda>x. \<not> isnan x) ms"
  have in_vs: "PInf \<in> set ?vs" "NInf \<in> set ?vs" using assms by simp_all
  then have "foldl fadd (Fin 0) ?vs = NaN" by (rule foldl_fadd_both)
  then show ?thesis by (simp add: nanmean_def Let_def)
qed

text \<open>
  C3 (as the code has it). Computing the derived fields never raises: every sales line
  gets its row, with its cells unchanged. On float64 columns, for a row whose Sales
  Amount \<open>s\<close> and Total Product Cost \<open>c\<close> are not null, Profit is \<open>s - c\<close> and,
  when \<open>s\<close> is not zero, Profit\_Margin is Profit / \<open>s\<close> times 100. When \<open>s\<close> is
  0 the margin is missing (NaN) only if the cost is 0 as well; with a positive cost it
  is minus infinity, with a negative cost plus infinity. When either input is null the
  margin is missing. On two int64 columns Profit is \<open>s - c\<close> wrapped to 64 bits, and
  the margin follows from this Profit in the same way. A mean over margins skips the
  missing ones but not the infinite ones: it is minus infinity when a margin is minus
  infinity and none is plus infinity, plus infinity when a margin is plus infinity and
  none is minus infinity, and missing (NaN) when both occur.
\<close>

theorem profit_margin_cases:
  "length (add_calculated_fields data) = length data \<and>
   (i < length data \<longrightarrow>
      sale.truncate (add_calculated_fields data ! i) = data ! i \<and>
      Profit_Margin (add_calculated_fields data ! i) =
        percent_ratio (Profit (add_calculated_fields data ! i)) (Sales_Amount (data ! i)) \<and>
      (Sales_Amount (data ! i) = F64 s \<and> Total_Product_Cost (data ! i) = F64 c \<longrightarrow>
         Profit (add_calculated_fields data ! i) = F64 (s - c) \<and>
         Profit_Margin (add_calculated_fields data ! i) =
           (if s \<noteq> 0 then Fin ((s - c) / s * 100)
            else if c = 0 then NaN else if 0 < c then NInf else PInf)) \<and>
      (Sales_Amount (data ! i) = NA \<or> Total_Product_Cost (data ! i) = NA \<longrightarrow>
         Profit_Margin (add_calculated_fields data ! i) = NaN) \<and>
      (int64_column (map Sales_Amount data) \<and> int64_column (map Total_Product_Cost data) \<longrightarrow>
         (let p = wrap64 (int_of (Sales_Amount (data ! i)) -
                          int_of (Total_Product_Cost (data ! i)));
              n = int_of (Sales_Amount (data ! i))
          in Profit (add_calculated_fields data ! i) = I64 p \<and>
             Profit_Margin (add_calculated_fields data ! i) =
               (if n \<noteq> 0 then Fin (real_of_int p / real_of_int n * 100)
                else if p = 0 then NaN else if 0 < p then PInf else NInf)))) \<and>
   (NInf \<in> set ms \<and> PInf \<notin> set ms \<longrightarrow> nanmean ms = NInf) \<and>
   (PInf \<in> set ms \<and> NInf \<notin> set ms \<longrightarrow> nanmean ms = PInf) \<and>
   (PInf \<in> set ms \<and> NInf \<in> set ms \<longrightarrow> nanmean ms = NaN)"
proof (intro conjI impI)
  show "length (add_calculated_fields data) = length data"
    by (rule length_add_calculated_fields)
next
  assume i: "i < length data"
  show "sale.truncate (add_calculated_fields data ! i) = data ! i"
    by (simp only: add_calculated_fields_nth[OF i] enriched_cells)
  show "Profit_Margin (add_calculated_fields data ! i) =
        percent_ratio (Profit (add_calculated_fields data ! i)) (Sales_Amount (data ! i))"
    by (simp only: add_calculated_fields_nth[OF i] enriched_cells)
next
  assume i: "i < length data"
    and "Sales_Amount (data ! i) = F64 s \<and> Total_Product_Cost (data ! i) = F64 c"
  then have sc: "Sales_Amount (data ! i) = F64 s" "Total_Product_Cost (data ! i) = F64 c"
    by simp_all
  have "\<not> is_I64 (map Sales_Amount data ! i)" using i sc by simp
  then have f: "\<not> int64_column (map Sales_Amount data)"
    using i int64_column_nth[of "map Sales_Amount data" i] by auto
  have p: "sub_columns (map Sales_Amount data) (map Total_Product_Cost data) ! i = F64 (s - c)"
    using i sc f by (simp add: sub_columns_nth)
  show "Profit (add_calculated_fields data ! i) = F64 (s - c)"
    by (simp only: add_calculated_fields_nth[OF i] enriched_cells p)
  show "Profit_Margin (add_calculated_fields data ! i) =
           (if s \<noteq> 0 then Fin ((s - c) / s * 100)
            else if c = 0 then NaN else if 0 < c then NInf else PInf)"
    unfolding add_calculated_fields_nth[OF i] enriched_cells p sc
    by (simp add: percent_ratio_def)
next
  assume i: "i < length data"
    and na: "Sales_Amount (data ! i) = NA \<or> Total_Product_Cost (data ! i) = NA"
  have "\<not> is_I64 (map Sales_Amount data ! i) \<or> \<not> is_I64 (map Total_Product_Cost data ! i)"
    using i na by auto
  then have f: "\<not> (int64_column (map Sales_Amount data) \<and>
                   int64_column (map Total_Product_Cost data))"
    using i int64_column_nth[of "map Sales_Amount data" i]
      int64_column_nth[of "map Total_Product_Cost data" i] by auto
  have p: "sub_columns (map Sales_Amount data) (map Total_Product_Cost data) ! i = NA"
    using i na f by (simp add: sub_columns_nth)
  show "Profit_Margin (add_calculated_fields data ! i) = NaN"
    unfolding add_calculated_fields_nth[OF i] enriched_cells p
    by (simp add: percent_ratio_def)
next
  assume i: "i < length data"
    and c: "int64_column (map Sales_Amount data) \<and> int64_column (map Total_Product_Cost data)"
  let ?p = "wrap64 (int_of (Sales_Amount (data ! i)) - int_of (Total_Product_Cost (data ! i)))"
  have p: "sub_columns (map Sales_Amount data) (map Total_Product_Cost data) ! i = I64 ?p"
    using i c by (simp add: sub_columns_nth)
  have "is_I64 (map Sales_Amount data ! i)"
    using c i int64_column_nth[of "map Sales_Amount data" i] by simp
  then obtain n where n: "Sales_Amount (data ! i) = I64 n"
    using i by (cases "Sales_Amount (data ! i)") simp_all
  have "Profit (add_calculated_fields data ! i) = I64 ?p"
    by (simp only: add_calculated_fields_nth[OF i] enriched_cells p)
  moreover have "Profit_Margin (add_calculated_fields data ! i) =
       (if int_of (Sales_Amount (data ! i)) \<noteq> 0
        then Fin (real_of_int ?p / real_of_int (int_of (Sales_Amount (data ! i))) * 100)
        else if ?p = 0 then NaN else if 0 < ?p then PInf else NInf)"
    unfolding add_calculated_fields_nth[OF i] enriched_cells p
    by (simp add: percent_ratio_def n)
  ultimately show "let p = ?p; n = int_of (Sales_Amount (data ! i))
          in Profit (add_calculated_fields data ! i) = I64 p \<and>
             Profit_Margin (add_calculated_fields data ! i) =
               (if n \<noteq> 0 then Fin (real_of_int p / real_of_int n * 100)
                else if p = 0 then NaN else if 0 < p then PInf else NInf)"
    by (simp only: Let_def)
next
  assume "NInf \<in> set ms \<and> PInf \<notin> set ms"
  then show "nanmean ms = NInf" by (simp add: nanmean_NInf)
next
  assume "PInf \<in> set ms \<and> NInf \<notin> set ms"
  then show "nanmean ms = PInf" by (simp add: nanmean_PInf)
next
  assume "PInf \<in> set ms \<and> NInf \<in> set ms"
  then show "nanmean ms = NaN" by (simp add: nanmean_both)
qed

lemma free_line_margins: "map Profit_Margin free_line = [NInf]"
  by (simp add: free_line_def row_defs percent_ratio_def)

lemma free_lines_margins: "map Profit_Margin free_lines = [NInf, PInf]"
  by (simp add: free_lines_def row_defs percent_ratio_def)

theorem profit_margin_cases_witness:
  "Profit_Margin (add_calculated_fields [sale_line 2020 100 60] ! 0) = Fin 40 \<and>
   Profit_Margin (add_calculated_fields [sale_line 2020 0 5] ! 0) = NInf \<and>
   Profit_Margin (add_calculated_fields
      [(sale_line 2020 0 5)\<lparr>Total_Product_Cost := NA\<rparr>] ! 0) = NaN \<and>
   Profit (add_calculated_fields [int_line 200 150] ! 0) = I64 50 \<and>
   Profit_Margin (add_calculated_fields [int_line 200 150] ! 0) = Fin 25 \<and>
   Profit (add_calculated_fields [int_line (2 ^ 63 - 1) (- 1)] ! 0) = I64 (- (2 ^ 63)) \<and>
   nanmean [Fin 40, NInf] = NInf \<and> nanmean [PInf, NaN] = PInf \<and>
   nanmean [NInf, PInf] = NaN"
proof -
  have a: "(0::nat) < length [sale_line 2020 100 60]"
      "Sales_Amount ([sale_line 2020 100 60] ! 0) = F64 100 \<and>
       Total_Product_Cost ([sale_line 2020 100 60] ! 0) = F64 60"
    and b: "(0::nat) < length [sale_line 2020 0 5]"
      "Sales_Amount ([sale_line 2020 0 5] ! 0) = F64 0 \<and>
       Total_Product_Cost ([sale_line 2020 0 5] ! 0) = F64 5"
    and c: "(0::nat) < length [(sale_line 2020 0 5)\<lparr>Total_Product_Cost := NA\<rparr>]"
      "Sales_Amount ([(sale_line 2020 0 5)\<lparr>Total_Product_Cost := NA\<rparr>] ! 0) = NA \<or>
       Total_Product_Cost ([(sale_line 2020 0 5)\<lparr>Total_Product_Cost := NA\<rparr>] ! 0) = NA"
    by (simp_all add: sale_line_def)
  have d: "(0::nat) < length [int_line 200 150]"
      "int64_column (map Sales_Amount [int_line 200 150]) \<and>
       int64_column (map Total_Product_Cost [int_line 200 150])"
      "int_of (Sales_Amount (int_line 200 150)) = 200"
      "int_of (Total_Product_Cost (int_line 200 150)) = 150"
    and e: "(0::nat) < length [int_line (2 ^ 63 - 1) (- 1)]"
      "int64_column (map Sales_Amount [int_line (2 ^ 63 - 1) (- 1)]) \<and>
       int64_column (map Total_Product_Cost [int_line (2 ^ 63 - 1) (- 1)])"
      "int_of (Sales_Amount (int_line (2 ^ 63 - 1) (- 1))) = 2 ^ 63 - 1"
      "int_of (Total_Product_Cost (int_line (2 ^ 63 - 1) (- 1))) = - 1"
    by (simp_all add: int_line_def int64_column_def)
  have f: "NInf \<in> set [Fin 40, NInf] \<and> PInf \<notin> set [Fin 40, NInf]"
    and g: "PInf \<in> set [PInf, NaN] \<and> NInf \<notin> set [PInf, NaN]"
    and h: "PInf \<in> set [NInf, PInf] \<and> NInf \<in> set [NInf, PInf]"
    by simp_all
  from profit_margin_cases[where data = "[sale_line 2020 100 60]" and i = 0
      and s = 100 and c = 60] a
  have "Profit_Margin (add_calculated_fields [sale_line 2020 100 60] ! 0) = Fin 40"
    by (simp add: percent_ratio_def)
  moreover from profit_margin_cases[where data = "[sale_line 2020 0 5]" and i = 0
      and s = 0 and c = 5] b
  have "Profit_Margin (add_calculated_fields [sale_line 2020 0 5] ! 0) = NInf"
    by (simp add: percent_ratio_def)
  moreover from profit_margin_cases[where
      data = "[(sale_line 2020 0 5)\<lparr>Total_Product_Cost := NA\<rparr>]" and i = 0] c
  have "Profit_Margin (add_calculated_fields
      [(sale_line 2020 0 5)\<lparr>Total_Product_Cost := NA\<rparr>] ! 0) = NaN" by blast
  moreover from profit_margin_cases[where data = "[int_line 200 150]" and i = 0] d(1,2)
  have "Profit (add_calculated_fields [int_line 200 150] ! 0) = I64 50 \<and>
        Profit_Margin (add_calculated_fields [int_line 200 150] ! 0) = Fin 25"
    by (simp add: Let_def d(3,4) wrap64_def percent_ratio_def int_line_def sale_line_def)
  moreover from profit_margin_cases[where data = "[int_line (2 ^ 63 - 1) (- 1)]" and i = 0]
    e(1,2)
  have "Profit (add_calculated_fields [int_line (2 ^ 63 - 1) (- 1)] ! 0) = I64 (- (2 ^ 63))"
    by (simp add: Let_def e(3,4) wrap64_def percent_ratio_def int_line_def sale_line_def)
  moreover from profit_margin_cases[where ms = "[Fin 40, NInf]"] f
  have "nanmean [Fin 40, NInf] = NInf" by blast
  moreover from profit_margin_cases[where ms = "[PInf, NaN]"] g
  have "nanmean [PInf, NaN] = PInf" by blast
  moreover from profit_margin_cases[where ms = "[NInf, PInf]"] h
  have "nanmean [NInf, PInf] = NaN" by blast
  ultimately show ?thesis by blast
qed

text \<open>
  C3 as stated fails: a sales line with Sales Amount 0 and cost 5 gets the margin minus
  infinity, not a missing value, and the average profit margin of the executive summary
  over this line is minus infinity.
\<close>

theorem zero_sales_counterexample:
  "Sales_Amount (free_line ! 0) = F64 0 \<and> Total_Product_Cost (free_line ! 0) = F64 5 \<and>
   Profit_Margin (free_line ! 0) = NInf \<and>
   (\<exists>s. create_executive_summary free_line = Inr s \<and> avg_profit_margin s = NInf)"
proof -
  have "\<exists>r\<in>set free_line. Date r \<noteq> None" by (simp add: free_line_def row_defs)
  then have "\<exists>s. create_executive_summary free_line = Inr s" by (rule summary_returns)
  then obtain s where s: "create_executive_summary free_line = Inr s" ..
  then have "avg_profit_margin s = NInf"
    by (simp add: summary_fields free_line_margins nanmean_def)
  moreover have "Sales_Amount (free_line ! 0) = F64 0"
    "Total_Product_Cost (free_line ! 0) = F64 5"
    "Profit_Margin (free_line ! 0) = NInf"
    by (simp_all add: free_line_def row_defs percent_ratio_def)
  ultimately show ?thesis using s by blast
qed

subsection \<open>Margins of aggregates\<close>

lemma group_keys_set: "set (group_keys key rs) = {k. \<exists>r\<in>set rs. key r = Some k}"
  by (auto simp: group_keys_props in_map_filter)

lemma sum_list_insort_key:
  fixes h :: "'a \<Rightarrow> 'b::comm_monoid_add"
  shows "sum_list (map h (insort_key k x xs)) = h x + sum_list (map h xs)"
  by (induction xs) (simp_all add: ac_simps)

lemma sum_list_sort_key:
  fixes h :: "'a \<Rightarrow> 'b::comm_monoid_add"
  shows "sum_list (map h (sort_key k xs)) = sum_list (map h xs)"
  by (induction xs) (simp_all add: sum_list_insort_key)

lemma sum_list_sort_values_desc:
  fixes h :: "'k \<times> num \<Rightarrow> 'b::comm_monoid_add"
  shows "sum_list (map h (sort_values_desc xs)) = sum_list (map h xs)"
proof -
  have "sum_list (map h (sort_values_desc xs)) =
        sum_list (rev (map h (sort_key (\<lambda>(k, v). num_real v) (rev xs))))"
    by (simp add: sort_values_desc_def rev_map)
  also have "\<dots> = sum_list (map h (rev xs))"
    by (simp only: sum_list_rev sum_list_sort_key)
  also have "\<dots> = sum_list (map h xs)"
    by (simp only: rev_map[symmetric] sum_list_rev)
  finally show ?thesis .
qed

lemma set_sort_values_desc: "set (sort_values_desc xs) = set xs"
  by (simp add: sort_values_desc_def)

lemma column_sum_sort_values_desc:
  "column_sum (map snd (sort_values_desc xs)) (map snd (sort_values_desc xs)) =
   column_sum (map snd xs) (map snd xs)"
proof -
  have a: "int64_column (map snd (sort_values_desc xs)) = int64_column (map snd xs)"
    by (simp add: int64_column_def list_all_iff set_sort_values_desc)
  have b: "sum_list (map int_of (map snd (sort_values_desc xs))) =
           sum_list (map int_of (map snd xs))"
    by (simp only: map_map sum_list_sort_values_desc)
  have c: "sum_list (map num_real (filter (\<lambda>x. x \<noteq> NA) (map snd (sort_values_desc xs)))) =
           sum_list (map num_real (filter (\<lambda>x. x \<noteq> NA) (map snd xs)))"
    by (simp only: sum_list_map_filter' map_map sum_list_sort_values_desc)
  show ?thesis by (simp only: column_sum_def a b c)
qed

lemma market_share_eq:
  "market_share data =
     map (\<lambda>(c, v). (c, percent_ratio v (country_total data)))
       (sort_values_desc (groupby_sum Country Sales_Amount data))"
proof -
  have "map snd (groupby_sum Country Sales_Amount data) =
        map (group_sum Country Sales_Amount data) (group_keys Country data)"
    by (simp add: groupby_sum_eq comp_def)
  then have "column_sum (map snd (sort_values_desc (groupby_sum Country Sales_Amount data)))
               (map snd (sort_values_desc (groupby_sum Country Sales_Amount data))) =
             country_total data"
    by (simp only: column_sum_sort_values_desc country_total_def Let_def)
  then show ?thesis
    by (simp add: market_share_def Let_def percent_ratio_def)
qed

lemma market_share_set:
  "set (market_share data) =
     (\<lambda>c. (c, percent_ratio (group_sum Country Sales_Amount data c) (country_total data))) `
       set (group_keys Country data)"
proof -
  have "set (market_share data) =
        (\<lambda>(c, v). (c, percent_ratio v (country_total data))) `
          set (groupby_sum Country Sales_Amount data)"
    by (simp only: market_share_eq set_map set_sort_values_desc)
  also have "\<dots> = (\<lambda>c. (c, percent_ratio (group_sum Country Sales_Amount data c)
                               (country_total data))) ` set (group_keys Country data)"
    by (simp add: groupby_sum_eq image_image)
  finally show ?thesis .
qed

lemma market_share_order:
  "map fst (market_share data) =
     map fst (sort_values_desc (groupby_sum Country Sales_Amount data))"
  by (simp add: market_share_eq comp_def case_prod_beta)

lemma category_margins:
  "map (\<lambda>m. (category_of m, margin m)) (category_metrics data) =
     map (\<lambda>c. (c, percent_ratio (group_sum Category Profit data c)
                    (group_sum Category Sales_Amount data c)))
       (group_keys Category data)"
  by (simp add: category_metrics_def Let_def comp_def group_sum_def group_rows_def
      percent_ratio_def)

lemma product_margins:
  "map (\<lambda>m. (product_of m, product_margin m)) (product_metrics data) =
     map (\<lambda>k. (k, percent_ratio (group_sum ProductKey Profit data k)
                    (group_sum ProductKey Sales_Amount data k)))
       (group_keys ProductKey data)"
  by (simp add: product_metrics_def Let_def comp_def group_sum_def group_rows_def
      percent_ratio_def)

lemma channel_margins:
  "map (\<lambda>m. (channel_of m, channel_margin m)) (channel_metrics data) =
     map (\<lambda>c. (c, percent_ratio (round2_num (group_sum Channel Profit data c))
                    (round2_num (group_sum Channel Sales_Amount data c))))
       (group_keys Channel data)"
  by (simp add: channel_metrics_def Let_def comp_def group_sum_def group_rows_def
      percent_ratio_def)

lemma channel_efficiency_ratios:
  "map (\<lambda>m. (efficiency_channel m, Revenue_per_Unit m, Cost_per_Unit m, Efficiency_Ratio m))
       (channel_efficiency data) =
     map (\<lambda>c. let s = to_fval (group_sum Channel Sales_Amount data c);
                  t = to_fval (group_sum Channel Total_Product_Cost data c);
                  q = to_fval (group_sum Channel Order_Quantity data c)
              in (c, fdiv s q, fdiv t q, fdiv (fdiv s q) (fdiv t q)))
       (group_keys Channel data)"
  by (simp add: channel_efficiency_def Let_def comp_def group_sum_def group_rows_def)

lemma country_opportunity_ratios:
  "map (\<lambda>m. (country_of m, Revenue_per_Customer m, Market_Penetration m))
       (country_opportunity data) =
     map (\<lambda>c. let n = nunique (map CustomerKey (group_rows Country data c))
              in (c, fdiv (to_fval (group_sum Country Sales_Amount data c)) (Fin (real n)),
                  fdiv (Fin (real n))
                    (Fin (real (\<Sum>d\<leftarrow>group_keys Country data.
                                   nunique (map CustomerKey (group_rows Country data d)))))))
       (group_keys Country data)"
  by (simp add: country_opportunity_def Let_def comp_def group_sum_def group_rows_def
      del: fdiv.simps)

lemma purchase_frequencies:
  "map (\<lambda>m. (customer_of m, Purchase_Frequency m)) (customer_metrics data) =
     map (\<lambda>k. let g = group_rows CustomerKey data k
              in (k, fmul (fdiv (Fin (real (count_cells (map Sales_Amount g))))
                            (days_fval (map_option (\<lambda>d. d + 1)
                               (days_between (max_date g) (min_date g)))))
                       (Fin 365)))
       (group_keys CustomerKey data)"
  by (simp add: customer_metrics_def Let_def comp_def)

lemma churn_percentage_eq:
  "churn_percentage data label =
     fmul (fdiv (Fin (real (churn_count data label)))
                (Fin (real (card {k. \<exists>r\<in>set data. CustomerKey r = Some k})))) (Fin 100)"
proof -
  have "length (days_since_last_purchase data) = length (group_keys CustomerKey data)"
    by (simp add: days_since_last_purchase_def)
  also have "\<dots> = card (set (group_keys CustomerKey data))"
    by (simp only: distinct_card[OF group_keys_props(2)])
  finally show ?thesis by (simp only: churn_percentage_def group_keys_set)
qed

lemma YoY_Growth_eq:
  "YoY_Growth sales =
     (let years = group_keys Fiscal_Year sales
      in map (\<lambda>i. if i = 0 then NaN
                  else fmul (fsub (fdiv (to_fval (group_sum Fiscal_Year Sales_Amount sales
                                                    (years ! i)))
                                        (to_fval (group_sum Fiscal_Year Sales_Amount sales
                                                    (years ! (i - 1)))))
                                  (Fin 1)) (Fin 100))
           [0..<length years])"
proof -
  have "map fst (groupby_sum Fiscal_Year Sales_Amount sales) = group_keys Fiscal_Year sales"
    by (simp add: groupby_sum_def comp_def)
  then have "sorted (map fst (groupby_sum Fiscal_Year Sales_Amount sales))"
    by (simp add: group_keys_props)
  then have "sort_key fst (groupby_sum Fiscal_Year Sales_Amount sales) =
             groupby_sum Fiscal_Year Sales_Amount sales"
    by (rule sort_key_id_if_sorted)
  then show ?thesis
    by (simp add: YoY_Growth_def pct_change_def Let_def groupby_sum_eq comp_def)
qed

text \<open>
  C2 (as the code has it). Every metric that the two programs derive by a division on
  groups is computed from the aggregates of the group, not from per-row ratios. A
  grouping has exactly one group for each key that occurs. The profit margin of a
  category and of a product is the summed profit of the group divided by its summed
  revenue, times 100; the profit margin of a channel is the same ratio of the two sums
  after each was rounded to 2 decimals. Revenue per unit and cost per unit of a channel
  are the summed revenue and the summed cost divided by the summed quantity, and the
  efficiency ratio is the quotient of the two. Revenue per customer of a country is its
  summed revenue divided by its number of customers, its market penetration that number
  divided by the sum of these numbers, and its market share its summed revenue divided
  by the sum of the country revenues, times 100. The purchase frequency of a customer
  is the number of purchases divided by the days from the first to the last one, times
  365; the percentage of a churn label is the number of customers with the label divided
  by the number of customers, times 100; the growth rates are computed from the revenue
  sums of consecutive fiscal years. Sums over an int64 column wrap around. The
  exceptions are the average profit margin of the executive summary, the average margin
  of the Profitability recommendation and the mean and the median written on the margin
  histograms: each is the mean (the median) of the per-row margins that are not missing.
\<close>

theorem margins_of_aggregates:
  "distinct (group_keys key rows) \<and>
   set (group_keys key rows) = {k. \<exists>r\<in>set rows. key r = Some k} \<and>
   map (\<lambda>m. (category_of m, margin m)) (category_metrics data) =
     map (\<lambda>c. (c, percent_ratio (group_sum Category Profit data c)
                    (group_sum Category Sales_Amount data c)))
       (group_keys Category data) \<and>
   map (\<lambda>m. (product_of m, product_margin m)) (product_metrics data) =
     map (\<lambda>k. (k, percent_ratio (group_sum ProductKey Profit data k)
                    (group_sum ProductKey Sales_Amount data k)))
       (group_keys ProductKey data) \<and>
   map (\<lambda>m. (channel_of m, channel_margin m)) (channel_metrics data) =
     map (\<lambda>c. (c, percent_ratio (round2_num (group_sum Channel Profit data c))
                    (round2_num (group_sum Channel Sales_Amount data c))))
       (group_keys Channel data) \<and>
   map (\<lambda>m. (efficiency_channel m, Revenue_per_Unit m, Cost_per_Unit m, Efficiency_Ratio m))
       (channel_efficiency data) =
     map (\<lambda>c. let s = to_fval (group_sum Channel Sales_Amount data c);
                  t = to_fval (group_sum Channel Total_Product_Cost data c);
                  q = to_fval (group_sum Channel Order_Quantity data c)
              in (c, fdiv s q, fdiv t q, fdiv (fdiv s q) (fdiv t q)))
       (group_keys Channel data) \<and>
   map (\<lambda>m. (country_of m, Revenue_per_Customer m, Market_Penetration m))
       (country_opportunity data) =
     map (\<lambda>c. let n = nunique (map CustomerKey (group_rows Country data c))
              in (c, fdiv (to_fval (group_sum Country Sales_Amount data c)) (Fin (real n)),
                  fdiv (Fin (real n))
                    (Fin (real (\<Sum>d\<leftarrow>group_keys Country data.
                                   nunique (map CustomerKey (group_rows Country data d)))))))
       (group_keys Country data) \<and>
   set (market_share data) =
     (\<lambda>c. (c, percent_ratio (group_sum Country Sales_Amount data c) (country_total data))) `
       set (group_keys Country data) \<and>
   map fst (market_share data) =
     map fst (sort_values_desc (groupby_sum Country Sales_Amount data)) \<and>
   map (\<lambda>m. (customer_of m, Purchase_Frequency m)) (customer_metrics data) =
     map (\<lambda>k. let g = group_rows CustomerKey data k
              in (k, fmul (fdiv (Fin (real (count_cells (map Sales_Amount g))))
                            (days_fval (map_option (\<lambda>d. d + 1)
                               (days_between (max_date g) (min_date g)))))
                       (Fin 365)))
       (group_keys CustomerKey data) \<and>
   churn_percentage data label =
     fmul (fdiv (Fin (real (churn_count data label)))
                (Fin (real (card {k. \<exists>r\<in>set data. CustomerKey r = Some k})))) (Fin 100) \<and>
   YoY_Growth sales =
     (let years = group_keys Fiscal_Year sales
      in map (\<lambda>i. if i = 0 then NaN
                  else fmul (fsub (fdiv (to_fval (group_sum Fiscal_Year Sales_Amount sales
                                                    (years ! i)))
                                        (to_fval (group_sum Fiscal_Year Sales_Amount sales
                                                    (years ! (i - 1)))))
                                  (Fin 1)) (Fin 100))
           [0..<length years]) \<and>
   (1 < card (fiscal_years data) \<longrightarrow>
      growth_metrics data =
        percent_ratio (num_sub (year_revenue data (Max (fiscal_years data)))
                         (year_revenue data (Max (fiscal_years data - {Max (fiscal_years data)}))))
          (year_revenue data (Max (fiscal_years data - {Max (fiscal_years data)})))) \<and>
   (create_executive_summary data = Inr s \<longrightarrow>
      avg_profit_margin s = nanmean (map Profit_Margin data) \<and>
      yoy_growth s = growth_metrics data) \<and>
   hd (figures (profitability data s)) = nanmean (map Profit_Margin data) \<and>
   profit_margin_labels data =
     (nanmean (map Profit_Margin data), nanmedian (map Profit_Margin data)) \<and>
   sales_sheet_margin_mean sales_data =
     nanmean (map Profit_Margin (add_calculated_fields sales_data))"
proof (intro conjI impI)
  show "distinct (group_keys key rows)" by (rule group_keys_props)
  show "set (group_keys key rows) = {k. \<exists>r\<in>set rows. key r = Some k}"
    by (rule group_keys_set)
  show "map (\<lambda>m. (category_of m, margin m)) (category_metrics data) =
     map (\<lambda>c. (c, percent_ratio (group_sum Category Profit data c)
                    (group_sum Category Sales_Amount data c)))
       (group_keys Category data)"
    by (rule category_margins)
  show "map (\<lambda>m. (product_of m, product_margin m)) (product_metrics data) =
     map (\<lambda>k. (k, percent_ratio (group_sum ProductKey Profit data k)
                    (group_sum ProductKey Sales_Amount data k)))
       (group_keys ProductKey data)"
    by (rule product_margins)
  show "map (\<lambda>m. (channel_of m, channel_margin m)) (channel_metrics data) =
     map (\<lambda>c. (c, percent_ratio (round2_num (group_sum Channel Profit data c))
                    (round2_num (group_sum Channel Sales_Amount data c))))
       (group_keys Channel data)"
    by (rule channel_margins)
  show "map (\<lambda>m. (efficiency_channel m, Revenue_per_Unit m, Cost_per_Unit m, Efficiency_Ratio m))
       (channel_efficiency data) =
     map (\<lambda>c. let s = to_fval (group_sum Channel Sales_Amount data c);
                  t = to_fval (group_sum Channel Total_Product_Cost data c);
                  q = to_fval (group_sum Channel Order_Quantity data c)
              in (c, fdiv s q, fdiv t q, fdiv (fdiv s q) (fdiv t q)))
       (group_keys Channel data)"
    by (rule channel_efficiency_ratios)
  show "map (\<lambda>m. (country_of m, Revenue_per_Customer m, Market_Penetration m))
       (country_opportunity data) =
     map (\<lambda>c. let n = nunique (map CustomerKey (group_rows Country data c))
              in (c, fdiv (to_fval (group_sum Country Sales_Amount data c)) (Fin (real n)),
                  fdiv (Fin (real n))
                    (Fin (real (\<Sum>d\<leftarrow>group_keys Country data.
                                   nunique (map CustomerKey (group_rows Country data d)))))))
       (group_keys Country data)"
    by (rule country_opportunity_ratios)
  show "set (market_share data) =
     (\<lambda>c. (c, percent_ratio (group_sum Country Sales_Amount data c) (country_total data))) `
       set (group_keys Country data)"
    by (rule market_share_set)
  show "map fst (market_share data) =
     map fst (sort_values_desc (groupby_sum Country Sales_Amount data))"
    by (rule market_share_order)
  show "map (\<lambda>m. (customer_of m, Purchase_Frequency m)) (customer_metrics data) =
     map (\<lambda>k. let g = group_rows CustomerKey data k
              in (k, fmul (fdiv (Fin (real (count_cells (map Sales_Amount g))))
                            (days_fval (map_option (\<lambda>d. d + 1)
                               (days_between (max_date g) (min_date g)))))
                       (Fin 365)))
       (group_keys CustomerKey data)"
    by (rule purchase_frequencies)
  show "churn_percentage data label =
     fmul (fdiv (Fin (real (churn_count data label)))
                (Fin (real (card {k. \<exists>r\<in>set data. CustomerKey r = Some k})))) (Fin 100)"
    by (rule churn_percentage_eq)
  show "YoY_Growth sales =
     (let years = group_keys Fiscal_Year sales
      in map (\<lambda>i. if i = 0 then NaN
                  else fmul (fsub (fdiv (to_fval (group_sum Fiscal_Year Sales_Amount sales
                                                    (years ! i)))
                                        (to_fval (group_sum Fiscal_Year Sales_Amount sales
                                                    (years ! (i - 1)))))
                                  (Fin 1)) (Fin 100))
           [0..<length years])"
    by (rule YoY_Growth_eq)
  show "hd (figures (profitability data s)) = nanmean (map Profit_Margin data)"
    by (simp add: profitability_def)
  show "profit_margin_labels data =
     (nanmean (map Profit_Margin data), nanmedian (map Profit_Margin data))"
    by (simp add: profit_margin_labels_def)
  show "sales_sheet_margin_mean sales_data =
     nanmean (map Profit_Margin (add_calculated_fields sales_data))"
    by (simp add: sales_sheet_margin_mean_def)
next
  assume "1 < card (fiscal_years data)"
  then show "growth_metrics data =
        percent_ratio (num_sub (year_revenue data (Max (fiscal_years data)))
                         (year_revenue data (Max (fiscal_years data - {Max (fiscal_years data)}))))
          (year_revenue data (Max (fiscal_years data - {Max (fiscal_years data)})))"
    by (rule growth_metrics_more)
next
  assume s: "create_executive_summary data = Inr s"
  then show "avg_profit_margin s = nanmean (map Profit_Margin data)"
    by (rule summary_fields)
  from s show "yoy_growth s = growth_metrics data" by (rule summary_fields)
qed

lemma two_lines_margins: "map Profit_Margin two_lines = [Fin 40, Fin 50]"
  by (simp add: two_lines_def row_defs percent_ratio_def)

lemma two_lines_groups:
  "group_keys Category two_lines = [1]" "group_keys ProductKey two_lines = [1]"
  by (simp_all add: group_keys_def two_lines_def row_defs map_filter_simps)

lemma two_lines_sums:
  "group_sum Category Profit two_lines 1 = F64 190"
  "group_sum Category Sales_Amount two_lines 1 = F64 400"
  "group_sum ProductKey Profit two_lines 1 = F64 190"
  "group_sum ProductKey Sales_Amount two_lines 1 = F64 400"
  by (simp_all add: two_lines_def row_defs sum_defs)

lemma two_lines_summary: "\<exists>s. create_executive_summary two_lines = Inr s"
  using two_lines_dated by (rule summary_returns)

theorem margins_of_aggregates_witness:
  "map (\<lambda>m. (category_of m, margin m)) (category_metrics two_lines) = [(1, Fin 47.5)] \<and>
   map (\<lambda>m. (product_of m, product_margin m)) (product_metrics two_lines) = [(1, Fin 47.5)] \<and>
   1 < card (fiscal_years two_years) \<and> growth_metrics two_years = Fin 200 \<and>
   (\<exists>s. create_executive_summary two_lines = Inr s \<and> avg_profit_margin s = Fin 45)"
proof -
  from two_lines_summary obtain s where s: "create_executive_summary two_lines = Inr s" ..
  have r: "percent_ratio (F64 190) (F64 400) = Fin 47.5"
    "percent_ratio (num_sub (F64 300) (F64 100)) (F64 100) = Fin 200"
    by (simp_all add: percent_ratio_def num_sub_def)
  have c2: "1 < card (fiscal_years two_years)" by (simp add: two_years_years)
  have m: "Max (fiscal_years two_years) = 2021"
    "Max (fiscal_years two_years - {2021}) = 2020"
    by (simp_all add: two_years_years insert_Diff_if)
  note t = margins_of_aggregates[where data = two_lines and s = s]
  have "map (\<lambda>m. (category_of m, margin m)) (category_metrics two_lines) = [(1, Fin 47.5)]"
    using t by (simp only: two_lines_groups two_lines_sums r list.map) blast
  moreover
  have "map (\<lambda>m. (product_of m, product_margin m)) (product_metrics two_lines) = [(1, Fin 47.5)]"
    using t by (simp only: two_lines_groups two_lines_sums r list.map) blast
  moreover
  from t s have "avg_profit_margin s = nanmean (map Profit_Margin two_lines)" by blast
  then have "avg_profit_margin s = Fin 45"
    by (simp add: two_lines_margins nanmean_def)
  moreover have "growth_metrics two_years = Fin 200"
    using margins_of_aggregates[where data = two_years] c2
    by (simp only: m two_years_revenue r) blast
  ultimately show ?thesis using s c2 by blast
qed

text \<open>
  C2 as stated fails. Over two lines with revenues 100 and 300 and profits 40 and 150
  the average profit margin of the executive summary, the average margin of the
  Profitability recommendation and the mean and the median on the margin histograms are
  45, from the two row margins, while summed profit over summed revenue times 100 is
  47.5. For a channel with one line of revenue 0.004 and profit 0.001 both sums are
  rounded to 0 and the channel margin is missing, while the ratio of the sums is 25.
  For a category with two int64 lines of revenue \<open>2 ^ 62\<close> each and profits 0 and
  \<open>2 ^ 62\<close> the revenue sum wraps around and the margin is -50, while the ratio of
  the exact sums is 50.
\<close>

theorem avg_margin_counterexample:
  "(\<exists>s. create_executive_summary two_lines = Inr s \<and>
        total_profit s = F64 190 \<and> total_revenue s = F64 400 \<and>
        percent_ratio (total_profit s) (total_revenue s) = Fin 47.5 \<and>
        avg_profit_margin s = Fin 45 \<and>
        hd (figures (profitability two_lines s)) = Fin 45) \<and>
   profit_margin_labels two_lines = (Fin 45, Fin 45) \<and>
   sales_sheet_margin_mean [sale_line 2020 100 60, sale_line 2020 300 150] = Fin 45 \<and>
   map (\<lambda>m. (channel_of m, channel_margin m)) (channel_metrics small_line) = [(1, NaN)] \<and>
   percent_ratio (group_sum Channel Profit small_line 1)
     (group_sum Channel Sales_Amount small_line 1) = Fin 25 \<and>
   map (\<lambda>m. (category_of m, margin m)) (category_metrics big_lines) = [(1, Fin (- 50))] \<and>
   sum_list (map (\<lambda>r. num_real (Profit r)) big_lines) /
     sum_list (map (\<lambda>r. num_real (Sales_Amount r)) big_lines) * 100 = 50"
proof -
  from two_lines_summary obtain s where s: "create_executive_summary two_lines = Inr s" ..
  have "avg_profit_margin s = Fin 45"
    by (simp add: summary_fields[OF s] two_lines_margins nanmean_def)
  moreover have "total_profit s = F64 190" "total_revenue s = F64 400"
    by (simp_all add: summary_fields[OF s] two_lines_def row_defs sum_defs)
  moreover have "percent_ratio (F64 190) (F64 400) = Fin 47.5"
    by (simp add: percent_ratio_def)
  moreover have "hd (figures (profitability two_lines s)) = Fin 45"
    by (simp add: profitability_def two_lines_margins nanmean_def)
  ultimately have a: "\<exists>s. create_executive_summary two_lines = Inr s \<and>
        total_profit s = F64 190 \<and> total_revenue s = F64 400 \<and>
        percent_ratio (total_profit s) (total_revenue s) = Fin 47.5 \<and>
        avg_profit_margin s = Fin 45 \<and>
        hd (figures (profitability two_lines s)) = Fin 45"
    using s by simp
  have b: "profit_margin_labels two_lines = (Fin 45, Fin 45)"
    by (simp add: profit_margin_labels_def two_lines_margins nanmean_def nanmedian_def
        fsort_def)
  have c: "sales_sheet_margin_mean [sale_line 2020 100 60, sale_line 2020 300 150] = Fin 45"
    using two_lines_margins
    by (simp add: sales_sheet_margin_mean_def two_lines_def nanmean_def)
  have r: "round2 (4 / 1000) = 0" "round2 (1 / 1000) = 0"
    by (simp_all add: round2_def rint_def Let_def)
  have g: "group_keys Channel small_line = [1]"
    by (simp add: group_keys_def small_line_def row_defs map_filter_simps)
  have p: "group_sum Channel Profit small_line 1 = F64 (1 / 1000)"
    "group_sum Channel Sales_Amount small_line 1 = F64 (4 / 1000)"
    by (simp_all add: small_line_def row_defs sum_defs)
  have d: "map (\<lambda>m. (channel_of m, channel_margin m)) (channel_metrics small_line) = [(1, NaN)]"
    by (simp add: channel_margins g p[simplified] r[simplified] percent_ratio_def)
  have e: "percent_ratio (group_sum Channel Profit small_line 1)
     (group_sum Channel Sales_Amount small_line 1) = Fin 25"
    by (simp add: p[simplified] percent_ratio_def)
  have gb: "group_keys Category big_lines = [1]"
    by (simp add: group_keys_def big_lines_def int_line_def row_defs map_filter_simps)
  have pb: "group_sum Category Profit big_lines 1 = I64 (2 ^ 62)"
    "group_sum Category Sales_Amount big_lines 1 = I64 (- (2 ^ 63))"
    by (simp_all add: big_lines_def int_line_def row_defs sum_defs wrap64_def)
  have f: "map (\<lambda>m. (category_of m, margin m)) (category_metrics big_lines) = [(1, Fin (- 50))]"
    by (simp add: category_margins gb pb[simplified] percent_ratio_def)
  have h: "sum_list (map (\<lambda>r. num_real (Profit r)) big_lines) /
     sum_list (map (\<lambda>r. num_real (Sales_Amount r)) big_lines) * 100 = 50"
    by (simp add: big_lines_def int_line_def row_defs wrap64_def)
  from a b c d e f h show ?thesis by blast
qed

subsection \<open>Trend of a constant sequence\<close>

lemma sum_list_zero: "(\<And>x. x \<in> set xs \<Longrightarrow> f x = (0::real)) \<Longrightarrow> sum_list (map f xs) = 0"
  by (induction xs) auto

lemma mean_of_replicate: "0 < n \<Longrightarrow> mean_of (replicate n c) = c"
  by (simp add: mean_of_def sum_list_replicate)

lemma arange_not_constant:
  assumes "2 \<le> n"
  shows "Max (set (arange 0 n)) \<noteq> Min (set (arange 0 n))"
proof -
  have fin: "finite (set (arange 0 n))" by simp
  have "0 \<in> set (arange 0 n)" "1 \<in> set (arange 0 n)"
    using assms by (auto simp: arange_def image_iff intro: bexI[of _ 0] bexI[of _ 1])
  then have "Min (set (arange 0 n)) \<le> 0" "1 \<le> Max (set (arange 0 n))"
    using fin by (auto intro: Min_le Max_ge)
  then show ?thesis by linarith
qed

lemma member_le_sum_list_real:
  fixes f :: "'a \<Rightarrow> real"
  assumes "\<And>x. 0 \<le> f x" "a \<in> set xs"
  shows "f a \<le> sum_list (map f xs)"
  using assms(2)
proof (induction xs)
  case Nil
  then show ?case by simp
next
  case (Cons x xs)
  have "0 \<le> sum_list (map f xs)" by (rule sum_list_nonneg) (auto simp: assms(1))
  then show ?case using Cons assms(1)[of x] by auto
qed

lemma ssxm_pos:
  assumes "2 \<le> n"
  shows "0 < mean_of (map (\<lambda>a. (a - m) * (a - m)) (arange 0 n))"
proof -
  let ?f = "\<lambda>a::real. (a - m) * (a - m)"
  have nonneg: "\<And>a. 0 \<le> ?f a" by simp
  have mem: "0 \<in> set (arange 0 n)" "1 \<in> set (arange 0 n)"
    using assms by (auto simp: arange_def image_iff intro: bexI[of _ 0] bexI[of _ 1])
  have "?f 0 \<le> sum_list (map ?f (arange 0 n))"
    using nonneg mem(1) by (rule member_le_sum_list_real)
  moreover have "?f 1 \<le> sum_list (map ?f (arange 0 n))"
    using nonneg mem(2) by (rule member_le_sum_list_real)
  moreover have "0 < ?f 0 \<or> 0 < ?f 1"
    by (cases "m = 0") (auto simp: zero_less_mult_iff)
  ultimately have "0 < sum_list (map ?f (arange 0 n))" by linarith
  then show ?thesis using assms by (simp add: mean_of_def arange_def)
qed

lemma linregress_constant:
  assumes "2 \<le> n"
  shows "linregress lib (arange 0 n) (replicate n c) = Inr (Fin 0, Fin c, r_zero_variance lib)"
proof -
  have n0: "0 < n" using assms by simp
  let ?x = "arange 0 n"
  let ?xm = "mean_of ?x"
  have len: "length ?x = n" by (simp add: arange_def)
  have ne: "?x \<noteq> []" "replicate n c \<noteq> []" using n0 by (auto simp: arange_def)
  have ym: "mean_of (replicate n c) = c" using n0 by (rule mean_of_replicate)
  have ssxym: "mean_of (map (\<lambda>(a, b). (a - ?xm) * (b - c)) (zip ?x (replicate n c))) = 0"
    unfolding mean_of_def
    by (subst sum_list_zero) (auto simp: set_zip)
  have ssym: "mean_of (map (\<lambda>b. (b - c) * (b - c)) (replicate n c)) = 0"
    unfolding mean_of_def by (subst sum_list_zero) auto
  have ssxm: "mean_of (map (\<lambda>a. (a - ?xm) * (a - ?xm)) ?x) \<noteq> 0"
    using ssxm_pos[OF assms, of ?xm] by simp
  show ?thesis
    using ne len arange_not_constant[OF assms] ssxm
    by (simp add: linregress_def Let_def ym ssxym ssym fsub_def mean_of_replicate[OF n0])
qed

lemma future_sales_constant:
  "future_sales (Fin 0) (Fin c) n h = replicate h (Fin c)"
  by (simp add: future_sales_def arange_def map_replicate_const)

lemma sales_forecasting_constant:
  assumes "2 \<le> n"
  shows "sales_forecasting lib (replicate n c) =
     Inr (r_squared (r_zero_variance lib), replicate 6 (Fin c))"
  using linregress_constant[OF assms, of lib c]
  by (simp add: sales_forecasting_def future_sales_constant)

lemma sales_forecasting_fives:
  "sales_forecasting lib [5, 5, 5, 5] =
     Inr (r_squared (r_zero_variance lib), [Fin 5, Fin 5, Fin 5, Fin 5, Fin 5, Fin 5])"
proof -
  have "sales_forecasting lib (replicate 4 5) =
        Inr (r_squared (r_zero_variance lib), replicate 6 (Fin 5))"
    by (rule sales_forecasting_constant) simp
  then show ?thesis by (simp add: numeral_eq_Suc)
qed

lemma r_squared_releases:
  "r_squared (r_zero_variance scipy_1_15) = Fin 0"
  "r_squared (r_zero_variance scipy_1_17) = NaN"
  by (simp_all add: r_squared_def scipy_1_15_def scipy_1_17_def)

text \<open>
  C6 (as the code has it). For every constant sequence of length at least 2, the fit
  over the index 0..n-1 succeeds with slope 0 and the constant as intercept, and the
  forecast for any horizon, in particular the six months the code asks for, is the
  constant repeated; there is no division error. The reported R squared is the square
  of the r that the library returns for values without variance: 0 with release 1.15,
  which returns 0, and NaN with release 1.17, which returns NaN.
\<close>

theorem constant_trend:
  assumes "2 \<le> n"
  shows "linregress lib (arange 0 n) (replicate n c) =
           Inr (Fin 0, Fin c, r_zero_variance lib) \<and>
         future_sales (Fin 0) (Fin c) n h = replicate h (Fin c) \<and>
         sales_forecasting lib (replicate n c) =
           Inr (r_squared (r_zero_variance lib), replicate 6 (Fin c)) \<and>
         r_squared (r_zero_variance scipy_1_15) = Fin 0 \<and>
         r_squared (r_zero_variance scipy_1_17) = NaN"
  using linregress_constant[OF assms, of lib c] sales_forecasting_constant[OF assms, of lib c]
  by (simp add: future_sales_constant r_squared_releases)

theorem constant_trend_witness:
  "linregress scipy_1_15 (arange 0 4) [5, 5, 5, 5] = Inr (Fin 0, Fin 5, Fin 0) \<and>
   linregress scipy_1_17 (arange 0 4) [5, 5, 5, 5] = Inr (Fin 0, Fin 5, NaN) \<and>
   future_sales (Fin 0) (Fin 5) 4 3 = [Fin 5, Fin 5, Fin 5] \<and>
   sales_forecasting scipy_1_15 [5, 5, 5, 5] =
     Inr (Fin 0, [Fin 5, Fin 5, Fin 5, Fin 5, Fin 5, Fin 5]) \<and>
   sales_forecasting scipy_1_17 [5, 5, 5, 5] =
     Inr (NaN, [Fin 5, Fin 5, Fin 5, Fin 5, Fin 5, Fin 5])"
  using constant_trend[of 4 scipy_1_15 5 3] constant_trend[of 4 scipy_1_17 5 3]
  by (simp add: numeral_eq_Suc scipy_1_15_def scipy_1_17_def)

text \<open>
  C6 as stated fails: for the sequence 5, 5, 5, 5 the reported R squared is not 1; it
  is 0 with release 1.15 of the library, and NaN with release 1.17.
\<close>

theorem constant_trend_counterexample:
  "(\<exists>r2 forecast. sales_forecasting scipy_1_15 [5, 5, 5, 5] = Inr (r2, forecast) \<and>
       r2 = Fin 0 \<and> r2 \<noteq> Fin 1) \<and>
   (\<exists>r2 forecast. sales_forecasting scipy_1_17 [5, 5, 5, 5] = Inr (r2, forecast) \<and>
       r2 = NaN \<and> r2 \<noteq> Fin 1)"
  by (simp add: sales_forecasting_fives r_squared_releases)

subsection \<open>Correlation matrix\<close>

lemma finite_pairs_diag: "finite_pairs xs xs = map (\<lambda>a. (a, a)) (finite_values xs)"
  by (induction xs rule: finite_values.induct) auto

lemma diag_ok_init: "diag_ok welford_init []"
  by (simp add: diag_ok_def welford_init_def)

lemma diag_step_ssq:
  "ssqdm_x (welford_step w (v, v)) =
     ssqdm_x w + (v - meanx w) * (v - meanx w) * (real (nobs w) / real (nobs w + 1))"
  by (simp add: welford_step_def Let_def field_simps)

lemma diag_step_fields:
  "nobs (welford_step w p) = nobs w + 1"
  "meanx (welford_step w (v, v)) = meanx w + (v - meanx w) / real (nobs w + 1)"
  "meany w = meanx w \<Longrightarrow> meany (welford_step w (v, v)) = meanx (welford_step w (v, v))"
  "meany w = meanx w \<Longrightarrow> ssqdm_y w = ssqdm_x w \<Longrightarrow>
     ssqdm_y (welford_step w (v, v)) = ssqdm_x (welford_step w (v, v))"
  "meany w = meanx w \<Longrightarrow> covxy w = ssqdm_x w \<Longrightarrow>
     covxy (welford_step w (v, v)) = ssqdm_x (welford_step w (v, v))"
  by (simp_all add: welford_step_def Let_def)

lemma diag_ok_step:
  assumes "diag_ok w vs"
  shows "diag_ok (welford_step w (v, v)) (vs @ [v])"
proof -
  let ?w = "welford_step w (v, v)"
  let ?d = "(v - meanx w) * (v - meanx w) * (real (nobs w) / real (nobs w + 1))"
  from assms have n: "nobs w = length vs" and my: "meany w = meanx w"
    and sy: "ssqdm_y w = ssqdm_x w" and cv: "covxy w = ssqdm_x w" and s0: "0 \<le> ssqdm_x w"
    by (simp_all add: diag_ok_def)
  have d0: "0 \<le> ?d" by simp
  have s': "ssqdm_x ?w = ssqdm_x w + ?d" by (rule diag_step_ssq)
  have base: "nobs ?w = length (vs @ [v])" "meany ?w = meanx ?w" "ssqdm_y ?w = ssqdm_x ?w"
    "covxy ?w = ssqdm_x ?w" "0 \<le> ssqdm_x ?w"
    using n my sy cv s0 d0 by (simp_all add: diag_step_fields s' del: of_nat_Suc of_nat_add)
  have last: "if \<exists>a\<in>set (vs @ [v]). \<exists>b\<in>set (vs @ [v]). a \<noteq> b then 0 < ssqdm_x ?w
      else ssqdm_x ?w = 0 \<and> (\<forall>a\<in>set (vs @ [v]). meanx ?w = a)"
  proof (cases "\<exists>a\<in>set vs. \<exists>b\<in>set vs. a \<noteq> b")
    case True
    then have "0 < ssqdm_x w" using assms by (simp add: diag_ok_def)
    then have "0 < ssqdm_x ?w" using d0 s' by linarith
    moreover have "\<exists>a\<in>set (vs @ [v]). \<exists>b\<in>set (vs @ [v]). a \<noteq> b" using True by auto
    ultimately show ?thesis by simp
  next
    case False
    then have z: "ssqdm_x w = 0" and m: "\<forall>a\<in>set vs. meanx w = a"
      using assms by (simp_all add: diag_ok_def)
    show ?thesis
    proof (cases "vs = []")
      case True
      then have "nobs w = 0" using n by simp
      then have "ssqdm_x ?w = 0" "meanx ?w = v"
        using z by (simp_all add: diag_step_ssq diag_step_fields)
      then show ?thesis using True by simp
    next
      case ne: False
      then have npos: "0 < nobs w" using n by simp
      show ?thesis
      proof (cases "v = meanx w")
        case True
        then have "ssqdm_x ?w = 0" "meanx ?w = meanx w"
          using z by (simp_all add: diag_step_ssq diag_step_fields)
        moreover have "\<not> (\<exists>a\<in>set (vs @ [v]). \<exists>b\<in>set (vs @ [v]). a \<noteq> b)"
          using m True by auto
        ultimately show ?thesis using m True by auto
      next
        case False
        from ne obtain a where a: "a \<in> set vs" by (cases vs) auto
        with m False have "a \<noteq> v" by auto
        with a have ex: "\<exists>a\<in>set (vs @ [v]). \<exists>b\<in>set (vs @ [v]). a \<noteq> b" by auto
        have "0 < (v - meanx w) * (v - meanx w)" using False by (auto simp: zero_less_mult_iff)
        moreover have "0 < real (nobs w) / real (nobs w + 1)" using npos by simp
        ultimately have "0 < ?d" by (rule mult_pos_pos)
        then have "0 < ssqdm_x ?w" using z s' by linarith
        with ex show ?thesis by simp
      qed
    qed
  qed
  show ?thesis unfolding diag_ok_def using base last by blast
qed

lemma diag_ok_foldl:
  "diag_ok w us \<Longrightarrow> diag_ok (foldl welford_step w (map (\<lambda>a. (a, a)) vs)) (us @ vs)"
proof (induction vs arbitrary: w us)
  case Nil
  then show ?case by simp
next
  case (Cons v vs)
  have "diag_ok (welford_step w (v, v)) (us @ [v])" using Cons.prems by (rule diag_ok_step)
  then have "diag_ok (foldl welford_step (welford_step w (v, v)) (map (\<lambda>a. (a, a)) vs))
     ((us @ [v]) @ vs)" by (rule Cons.IH)
  then show ?case by simp
qed

lemma nancorr_diag:
  "nancorr_pair xs xs =
     (if \<exists>a\<in>set (finite_values xs). \<exists>b\<in>set (finite_values xs). a \<noteq> b then Fin 1 else NaN)"
proof -
  let ?w = "foldl welford_step welford_init (finite_pairs xs xs)"
  have ok: "diag_ok ?w (finite_values xs)"
    using diag_ok_foldl[OF diag_ok_init, of "finite_values xs"]
    by (simp add: finite_pairs_diag)
  show ?thesis
  proof (cases "\<exists>a\<in>set (finite_values xs). \<exists>b\<in>set (finite_values xs). a \<noteq> b")
    case True
    then have pos: "0 < ssqdm_x ?w" using ok by (simp add: diag_ok_def)
    from True have "finite_values xs \<noteq> []" by auto
    then have n: "\<not> nobs ?w < 1" using ok by (simp add: diag_ok_def)
    have eqs: "ssqdm_y ?w = ssqdm_x ?w" "covxy ?w = ssqdm_x ?w"
      using ok by (simp_all add: diag_ok_def)
    have "sqrt (ssqdm_x ?w * ssqdm_x ?w) = ssqdm_x ?w" using pos by simp
    then show ?thesis using True pos n eqs
      by (simp add: nancorr_pair_def Let_def)
  next
    case False
    then have "ssqdm_x ?w = 0" using ok by (simp add: diag_ok_def)
    then show ?thesis using False by (simp add: nancorr_pair_def Let_def)
  qed
qed

lemma nancorr_range:
  "nancorr_pair xs ys = NaN \<or> (\<exists>v. nancorr_pair xs ys = Fin v \<and> - 1 \<le> v \<and> v \<le> 1)"
  by (simp add: nancorr_pair_def Let_def)

lemma corr_nth:
  "i < length cols \<Longrightarrow> j < length cols \<Longrightarrow> corr cols ! i ! j = corr_entry cols i j"
  by (simp add: corr_def)

lemma corr_entry_sym: "corr_entry cols i j = corr_entry cols j i"
  by (cases "i = j") (auto simp: corr_entry_def)

text \<open>
  C8 (as the code has it). The correlation matrix is symmetric, and every entry is a
  number between -1 and 1 or a missing value. A diagonal entry is exactly 1 when the
  column holds two different finite values; it is missing when the column is constant
  or has fewer than two finite values.
\<close>

theorem corr_matrix_properties:
  assumes "i < length cols" and "j < length cols"
  shows "corr cols ! i ! j = corr cols ! j ! i \<and>
         (corr cols ! i ! j = NaN \<or> (\<exists>v. corr cols ! i ! j = Fin v \<and> - 1 \<le> v \<and> v \<le> 1)) \<and>
         corr cols ! i ! i =
           (if \<exists>a\<in>set (finite_values (cols ! i)). \<exists>b\<in>set (finite_values (cols ! i)). a \<noteq> b
            then Fin 1 else NaN)"
proof (intro conjI)
  show "corr cols ! i ! j = corr cols ! j ! i"
    using assms corr_entry_sym[of cols i j] by (simp add: corr_nth)
  show "corr cols ! i ! j = NaN \<or> (\<exists>v. corr cols ! i ! j = Fin v \<and> - 1 \<le> v \<and> v \<le> 1)"
    using assms nancorr_range by (simp add: corr_nth corr_entry_def)
  show "corr cols ! i ! i =
           (if \<exists>a\<in>set (finite_values (cols ! i)). \<exists>b\<in>set (finite_values (cols ! i)). a \<noteq> b
            then Fin 1 else NaN)"
    using assms(1) by (simp add: corr_nth corr_entry_def nancorr_diag)
qed

theorem corr_matrix_properties_witness:
  "corr varying_columns ! 1 ! 0 = corr varying_columns ! 0 ! 1 \<and>
   (corr varying_columns ! 1 ! 0 = NaN \<or>
      (\<exists>v. corr varying_columns ! 1 ! 0 = Fin v \<and> - 1 \<le> v \<and> v \<le> 1)) \<and>
   corr varying_columns ! 1 ! 1 = Fin 1"
proof -
  have l: "1 < length varying_columns" "0 < length varying_columns"
    by (simp_all add: varying_columns_def)
  have v: "\<exists>a\<in>set (finite_values (varying_columns ! 1)).
          \<exists>b\<in>set (finite_values (varying_columns ! 1)). a \<noteq> b"
    by (force simp: varying_columns_def)
  note t = corr_matrix_properties[OF l]
  from t have "corr varying_columns ! 1 ! 0 = corr varying_columns ! 0 ! 1" by blast
  moreover from t have "corr varying_columns ! 1 ! 0 = NaN \<or>
      (\<exists>v. corr varying_columns ! 1 ! 0 = Fin v \<and> - 1 \<le> v \<and> v \<le> 1)"
    by blast
  moreover from t v have "corr varying_columns ! 1 ! 1 = Fin 1"
    by presburger
  ultimately show ?thesis by blast
qed

text \<open>
  C8 as stated fails on the diagonal: for a column whose values are all 3 the diagonal
  entry is missing, not 1.
\<close>

theorem constant_column_counterexample:
  "0 < length constant_column \<and> corr constant_column ! 0 ! 0 = NaN"
  by (simp add: constant_column_def corr_def corr_entry_def nancorr_diag)

subsection \<open>Recommendations\<close>

lemma group_keys_nonempty:
  assumes "r \<in> set rs" "key r = Some k"
  shows "group_keys key rs \<noteq> []"
proof -
  have "k \<in> set (group_keys key rs)"
    using assms by (auto simp: group_keys_props in_map_filter)
  then show ?thesis by auto
qed

lemma sort_values_desc_Nil: "sort_values_desc xs = [] \<longleftrightarrow> xs = []"
proof -
  have "length (sort_values_desc xs) = length xs" by (simp add: sort_values_desc_def)
  then show ?thesis by (metis length_0_conv)
qed

lemma geographic_expansion_returns:
  assumes "r \<in> set data" "Country r = Some k"
  shows "\<exists>g. geographic_expansion data = Inr g \<and> category g = ''Geographic Expansion''"
proof -
  have "groupby_sum Country Sales_Amount data \<noteq> []"
    using group_keys_nonempty[of r data Country k] assms by (simp add: groupby_sum_def)
  then show ?thesis
    by (simp add: geographic_expansion_def Let_def sort_values_desc_Nil)
qed

lemma product_strategy_returns:
  assumes "r \<in> set data" "Product r = Some k"
  shows "\<exists>g. product_strategy data = Inr g \<and> category g = ''Product Strategy''"
proof -
  have "groupby_sum Product Profit data \<noteq> []"
    using group_keys_nonempty[of r data Product k] assms by (simp add: groupby_sum_def)
  then show ?thesis
    by (simp add: product_strategy_def Let_def sort_values_desc_Nil)
qed

lemma finite_entries_nonempty:
  assumes "(k, Fin a) \<in> set s"
  shows "finite_entries s \<noteq> []"
  using assms by (induction s) (auto simp: finite_entries_def)

lemma mean_cells_finite:
  assumes "a \<in> set xs" "a \<noteq> NA"
  shows "\<exists>b. mean_cells xs = Fin b"
proof -
  have "a \<in> set (filter (\<lambda>x. x \<noteq> NA) xs)" using assms by simp
  then have "filter (\<lambda>x. x \<noteq> NA) xs \<noteq> []" by (auto simp del: set_filter)
  then show ?thesis by (simp add: mean_cells_def Let_def)
qed

lemma seasonal_planning_returns:
  assumes "r \<in> set data" "Month_Name r = Some m" "Sales_Amount r \<noteq> NA"
  shows "\<exists>g. seasonal_planning data = Inr g \<and> category g = ''Seasonal Planning''"
proof -
  let ?avg = "groupby_mean Month_Name Sales_Amount data"
  have m: "m \<in> set (group_keys Month_Name data)"
    using assms by (auto simp: group_keys_props in_map_filter)
  have "Sales_Amount r \<in> set (map Sales_Amount (group_rows Month_Name data m))"
    using assms by (force simp: group_rows_def)
  then obtain b where "mean_cells (map Sales_Amount (group_rows Month_Name data m)) = Fin b"
    using mean_cells_finite assms(3) by blast
  then have "(m, Fin b) \<in> set ?avg" using m by (force simp: groupby_mean_def)
  then have fe: "finite_entries ?avg \<noteq> []" and ne: "?avg \<noteq> []"
    using finite_entries_nonempty by fastforce+
  obtain p where p: "idxmax ?avg = Inr p" using fe ne by (simp add: idxmax_def Let_def)
  obtain l where l: "idxmin ?avg = Inr l" using fe ne by (simp add: idxmin_def Let_def)
  show ?thesis by (simp add: seasonal_planning_def Let_def p l)
qed

lemma channel_strategy_categories:
  "map category (channel_strategy data) =
     (if 2 \<le> card (channels data) then [''Channel Strategy''] else [])"
proof -
  have "length (groupby_sum Channel Sales_Amount data) = card (channels data)"
    by (simp add: groupby_sum_def length_group_keys channels_def)
  then show ?thesis by (auto simp: channel_strategy_def Let_def)
qed

lemma fixed_categories:
  "category (customer_retention data) = ''Customer Retention''"
  "category (profitability data summary) = ''Profitability''"
  by (simp_all add: customer_retention_def profitability_def Let_def)

text \<open>
  C9 (as the code has it). For every dataset in which some row has a country, some row
  has a product and some row has a month together with a sales amount, the synthesizer
  returns without raising, and its output is the categories Geographic Expansion,
  Product Strategy, Customer Retention, Channel Strategy, Seasonal Planning and
  Profitability in this order, where Channel Strategy is present if and only if the
  data holds at least 2 distinct channels. No other category is ever omitted, also not
  when its aggregation has a single group.
\<close>

theorem recommendation_categories:
  assumes "\<exists>r\<in>set data. Country r \<noteq> None" and "\<exists>r\<in>set data. Product r \<noteq> None"
    and "\<exists>r\<in>set data. Month_Name r \<noteq> None \<and> Sales_Amount r \<noteq> NA"
  shows "\<exists>recs. generate_business_recommendations data summary = Inr recs \<and>
           map category recs =
             [''Geographic Expansion'', ''Product Strategy'', ''Customer Retention''] @
             (if 2 \<le> card (channels data) then [''Channel Strategy''] else []) @
             [''Seasonal Planning'', ''Profitability'']"
proof -
  from assms(1) obtain geo where geo: "geographic_expansion data = Inr geo"
    "category geo = ''Geographic Expansion''"
    using geographic_expansion_returns by fastforce
  from assms(2) obtain prod where prod: "product_strategy data = Inr prod"
    "category prod = ''Product Strategy''"
    using product_strategy_returns by fastforce
  from assms(3) obtain season where season: "seasonal_planning data = Inr season"
    "category season = ''Seasonal Planning''"
    using seasonal_planning_returns by fastforce
  have "generate_business_recommendations data summary =
          Inr ([geo, prod, customer_retention data] @ channel_strategy data @
               [season, profitability data summary])"
    by (simp add: generate_business_recommendations_def and_then_def geo prod season)
  then show ?thesis
    by (simp add: geo prod season fixed_categories channel_strategy_categories)
qed

lemmas recommendation_eval = generate_business_recommendations_def and_then_def
  geographic_expansion_def product_strategy_def customer_retention_def channel_strategy_def
  seasonal_planning_def profitability_def sort_values_desc_def groupby_sum_def
  groupby_mean_def group_keys_def group_rows_def idxmax_def idxmin_def finite_entries_def
  series_sum_def column_sum_def int64_column_def mean_cells_def map_filter_simps
  quantile_def interpolate_def num_sub_def

lemma two_lines_keys:
  "\<exists>r\<in>set two_lines. Country r \<noteq> None" "\<exists>r\<in>set two_lines. Product r \<noteq> None"
  "\<exists>r\<in>set two_lines. Month_Name r \<noteq> None \<and> Sales_Amount r \<noteq> NA"
  "card (channels two_lines) = 1"
  by (simp_all add: two_lines_def row_defs  channels_def map_filter_simps)

lemma two_channels_keys:
  "\<exists>r\<in>set two_channels. Country r \<noteq> None" "\<exists>r\<in>set two_channels. Product r \<noteq> None"
  "\<exists>r\<in>set two_channels. Month_Name r \<noteq> None \<and> Sales_Amount r \<noteq> NA"
  "card (channels two_channels) = 2"
  by (simp_all add: two_channels_def row_defs  channels_def map_filter_simps)

lemma two_channels_summary: "\<exists>s. create_executive_summary two_channels = Inr s"
  by (rule summary_returns) (simp add: two_channels_def row_defs)

theorem recommendation_categories_witness:
  "(\<exists>s recs. create_executive_summary two_lines = Inr s \<and>
      generate_business_recommendations two_lines s = Inr recs \<and>
      map category recs =
        [''Geographic Expansion'', ''Product Strategy'', ''Customer Retention'',
         ''Seasonal Planning'', ''Profitability'']) \<and>
   (\<exists>s recs. create_executive_summary two_channels = Inr s \<and>
      generate_business_recommendations two_channels s = Inr recs \<and>
      map category recs =
        [''Geographic Expansion'', ''Product Strategy'', ''Customer Retention'',
         ''Channel Strategy'', ''Seasonal Planning'', ''Profitability''])"
proof -
  from two_lines_summary obtain s1 where s1: "create_executive_summary two_lines = Inr s1" ..
  from two_channels_summary obtain s2
    where s2: "create_executive_summary two_channels = Inr s2" ..
  from recommendation_categories[OF two_lines_keys(1-3), of s1]
  obtain r1 where r1: "generate_business_recommendations two_lines s1 = Inr r1"
      "map category r1 =
        [''Geographic Expansion'', ''Product Strategy'', ''Customer Retention'',
         ''Seasonal Planning'', ''Profitability'']"
    by (auto simp: two_lines_keys(4))
  from recommendation_categories[OF two_channels_keys(1-3), of s2]
  obtain r2 where r2: "generate_business_recommendations two_channels s2 = Inr r2"
      "map category r2 =
        [''Geographic Expansion'', ''Product Strategy'', ''Customer Retention'',
         ''Channel Strategy'', ''Seasonal Planning'', ''Profitability'']"
    by (auto simp: two_channels_keys(4))
  show ?thesis
  proof (intro conjI)
    show "\<exists>s recs. create_executive_summary two_lines = Inr s \<and>
      generate_business_recommendations two_lines s = Inr recs \<and>
      map category recs =
        [''Geographic Expansion'', ''Product Strategy'', ''Customer Retention'',
         ''Seasonal Planning'', ''Profitability'']"
      using s1 r1 by (intro exI[of _ s1] exI[of _ r1] conjI)
    show "\<exists>s recs. create_executive_summary two_channels = Inr s \<and>
      generate_business_recommendations two_channels s = Inr recs \<and>
      map category recs =
        [''Geographic Expansion'', ''Product Strategy'', ''Customer Retention'',
         ''Channel Strategy'', ''Seasonal Planning'', ''Profitability'']"
      using s2 r2 by (intro exI[of _ s2] exI[of _ r2] conjI)
  qed
qed

text \<open>
  C9 as stated fails: over two sales lines of one country the country aggregation has a
  single group and Geographic Expansion is emitted all the same; and over a sales line
  whose country is null the country aggregation has no group and the synthesizer raises
  IndexError.
\<close>

theorem single_country_counterexample:
  "length (groupby_sum Country Sales_Amount two_lines) = 1 \<and>
   (\<exists>s recs. create_executive_summary two_lines = Inr s \<and>
      generate_business_recommendations two_lines s = Inr recs \<and>
      ''Geographic Expansion'' \<in> set (map category recs)) \<and>
   groupby_sum Country Sales_Amount no_country = [] \<and>
   (\<exists>s. create_executive_summary no_country = Inr s \<and>
      generate_business_recommendations no_country s = Inl IndexError)"
proof -
  from two_lines_summary obtain s1 where s1: "create_executive_summary two_lines = Inr s1" ..
  have "\<exists>s. create_executive_summary no_country = Inr s"
    by (rule summary_returns) (simp add: no_country_def row_defs)
  then obtain s2 where s2: "create_executive_summary no_country = Inr s2" ..
  have a: "length (groupby_sum Country Sales_Amount two_lines) = 1"
    by (simp add: groupby_sum_def group_keys_def two_lines_def row_defs 
        map_filter_simps)
  obtain r1 where b: "generate_business_recommendations two_lines s1 = Inr r1"
      "''Geographic Expansion'' \<in> set (map category r1)"
    by (simp add: recommendation_eval two_lines_def row_defs )
  have c: "groupby_sum Country Sales_Amount no_country = []"
    by (simp add: groupby_sum_def group_keys_def no_country_def row_defs 
        map_filter_simps)
  have d: "generate_business_recommendations no_country s2 = Inl IndexError"
    by (simp add: generate_business_recommendations_def and_then_def geographic_expansion_def
        sort_values_desc_def c)
  show ?thesis
  proof (intro conjI)
    show "length (groupby_sum Country Sales_Amount two_lines) = 1" by (rule a)
    show "\<exists>s recs. create_executive_summary two_lines = Inr s \<and>
      generate_business_recommendations two_lines s = Inr recs \<and>
      ''Geographic Expansion'' \<in> set (map category recs)"
      using s1 b by (intro exI[of _ s1] exI[of _ r1] conjI)
    show "groupby_sum Country Sales_Amount no_country = []" by (rule c)
    show "\<exists>s. create_executive_summary no_country = Inr s \<and>
      generate_business_recommendations no_country s = Inl IndexError"
      using s2 d by (intro exI[of _ s2] conjI)
  qed
qed

subsection \<open>Quartile segments\<close>

lemma strict_nth:
  fixes s :: "real list"
  assumes "sorted s" "distinct s" "i < j" "j < length s"
  shows "s ! i < s ! j"
proof -
  have "sorted_wrt (<) s" using assms(1,2) by (simp add: strict_sorted_iff)
  then show ?thesis using assms(3,4) by (rule sorted_wrt_nth_less)
qed

lemma nth_less_iff:
  fixes s :: "real list"
  assumes "sorted s" "distinct s" "i < length s" "j < length s"
  shows "s ! i < s ! j \<longleftrightarrow> i < j"
proof
  assume "s ! i < s ! j"
  show "i < j"
  proof (rule ccontr)
    assume "\<not> i < j"
    then have "j \<le> i" by simp
    then have "s ! j \<le> s ! i" using assms(1,3) by (simp add: sorted_nth_mono)
    with \<open>s ! i < s ! j\<close> show False by simp
  qed
next
  assume "i < j" then show "s ! i < s ! j" using assms by (simp add: strict_nth)
qed

lemma interpolate_less_nth:
  assumes "sorted s" "distinct s" "i < length s" "0 \<le> p" "p \<le> real (length s - 1)"
  shows "interpolate s p < s ! i \<longleftrightarrow> p < real i"
proof -
  let ?lo = "nat \<lfloor>p\<rfloor>"
  let ?g = "p - real ?lo"
  have lo_le: "real ?lo \<le> p" using assms(4) by simp
  have lo_gt: "p < real ?lo + 1" using assms(4) by linarith
  have lo_n: "?lo < length s"
  proof -
    have "real ?lo \<le> real (length s - 1)" using lo_le assms(5) by linarith
    then have "?lo \<le> length s - 1" by simp
    then show ?thesis using assms(3) by linarith
  qed
  show ?thesis
  proof (cases "?g = 0")
    case True
    then have F: "interpolate s p = s ! ?lo" by (simp add: interpolate_def Let_def)
    have "s ! ?lo < s ! i \<longleftrightarrow> ?lo < i"
      using assms(1,2) lo_n assms(3) by (rule nth_less_iff)
    moreover have "p = real ?lo" using True by simp
    ultimately show ?thesis using F by (metis of_nat_less_iff)
  next
    case False
    then have g: "0 < ?g" "?g < 1" using lo_le lo_gt by linarith+
    have "real ?lo < real (length s - 1)" using g(1) assms(5) by linarith
    then have lo1: "?lo + 1 \<le> length s - 1" "?lo + 1 < length s" by linarith+
    then have hi: "min (?lo + 1) (length s - 1) = ?lo + 1" by simp
    have hi': "min (Suc ?lo) (length s - Suc 0) = Suc ?lo" using lo1 by simp
    have F: "interpolate s p = s ! ?lo + ?g * (s ! (?lo + 1) - s ! ?lo)"
      by (simp add: interpolate_def Let_def hi')
    have d: "s ! ?lo < s ! (?lo + 1)" using assms(1,2) lo1(2) by (intro strict_nth) auto
    have low: "s ! ?lo < interpolate s p"
      using d g(1) by (simp add: F)
    have "?g * (s ! (?lo + 1) - s ! ?lo) < 1 * (s ! (?lo + 1) - s ! ?lo)"
      using d g(2) by (intro mult_strict_right_mono) auto
    then have high: "interpolate s p < s ! (?lo + 1)" by (simp add: F)
    show ?thesis
    proof (cases "i \<le> ?lo")
      case True
      then have "s ! i \<le> s ! ?lo" using assms(1) lo_n by (simp add: sorted_nth_mono)
      then have "\<not> interpolate s p < s ! i" using low by linarith
      moreover have "\<not> p < real i" using True lo_le by linarith
      ultimately show ?thesis by simp
    next
      case False
      then have i: "?lo + 1 \<le> i" by simp
      then have "s ! (?lo + 1) \<le> s ! i" using assms(1,3) by (simp add: sorted_nth_mono)
      then have "interpolate s p < s ! i" using high by linarith
      moreover have "real (?lo + 1) \<le> real i" using i by (simp only: of_nat_le_iff)
      then have "p < real i" using lo_gt by simp
      ultimately show ?thesis by simp
    qed
  qed
qed

lemma interpolate_strict_mono:
  assumes "sorted s" "distinct s" "0 \<le> p" "p < p'" "p' \<le> real (length s - 1)"
  shows "interpolate s p < interpolate s p'"
proof (cases "p < real (nat \<lfloor>p'\<rfloor>)")
  case True
  let ?i = "nat \<lfloor>p'\<rfloor>"
  have ip: "real ?i \<le> p'" using assms(3,4) by simp
  then have "real ?i \<le> real (length s - 1)" using assms(5) by linarith
  then have "?i \<le> length s - 1" by simp
  moreover have "0 < length s"
  proof (rule ccontr)
    assume "\<not> 0 < length s"
    then have "p' \<le> 0" using assms(5) by simp
    then show False using assms(3,4) by linarith
  qed
  ultimately have i: "?i < length s" by linarith
  have "interpolate s p < s ! ?i"
    using interpolate_less_nth[OF assms(1,2) i assms(3)] True assms(4,5) by simp
  moreover have "\<not> interpolate s p' < s ! ?i"
  proof -
    have "0 \<le> p'" using assms(3,4) by linarith
    then have "interpolate s p' < s ! ?i \<longleftrightarrow> p' < real ?i"
      using assms(5) by (intro interpolate_less_nth[OF assms(1,2) i])
    then show ?thesis using ip by linarith
  qed
  ultimately show ?thesis by linarith
next
  case False
  let ?lo = "nat \<lfloor>p'\<rfloor>"
  have le: "real ?lo \<le> p" using False by simp
  have "\<lfloor>p\<rfloor> = \<lfloor>p'\<rfloor>"
  proof -
    have "\<lfloor>p\<rfloor> \<le> \<lfloor>p'\<rfloor>" using assms(4) by (simp add: floor_mono)
    moreover have "\<lfloor>p'\<rfloor> \<le> \<lfloor>p\<rfloor>"
    proof -
      have "0 \<le> \<lfloor>p'\<rfloor>" using assms(3,4) by simp
      then have "of_int \<lfloor>p'\<rfloor> = real ?lo" by simp
      then have "of_int \<lfloor>p'\<rfloor> \<le> p" using le by simp
      then show ?thesis by (simp add: le_floor_iff)
    qed
    ultimately show ?thesis by simp
  qed
  then have same: "nat \<lfloor>p\<rfloor> = ?lo" by simp
  have "real ?lo < p'" using le assms(4) by linarith
  then have "real ?lo < real (length s - 1)" using assms(5) by linarith
  then have lo1: "?lo + 1 \<le> length s - 1" "?lo + 1 < length s" by linarith+
  then have hi: "min (?lo + 1) (length s - 1) = ?lo + 1" by simp
  have d: "s ! ?lo < s ! (?lo + 1)" using assms(1,2) lo1(2) by (intro strict_nth) auto
  have hi': "min (Suc ?lo) (length s - Suc 0) = Suc ?lo" using lo1 by simp
  have "interpolate s p' - interpolate s p = (p' - p) * (s ! (?lo + 1) - s ! ?lo)"
    by (simp add: interpolate_def Let_def same hi' algebra_simps)
  moreover have "0 < (p' - p) * (s ! (?lo + 1) - s ! ?lo)"
    using d assms(4) by (intro mult_pos_pos) auto
  ultimately show ?thesis by linarith
qed

lemma real_quarter_le:
  "real i \<le> real k / 4 * real m \<longleftrightarrow> i \<le> (k * m) div 4"
proof -
  have "real i \<le> real k / 4 * real m \<longleftrightarrow> real (4 * i) \<le> real (k * m)"
    by (simp add: field_simps)
  also have "\<dots> \<longleftrightarrow> 4 * i \<le> k * m" by (simp only: of_nat_le_iff)
  also have "\<dots> \<longleftrightarrow> i \<le> (k * m) div 4" by linarith
  finally show ?thesis .
qed

lemma count_le_quantile:
  assumes "distinct xs" "xs \<noteq> []" "k \<le> 4"
  shows "card {v \<in> set xs. v \<le> quantile xs (real k / 4)} = (k * (length xs - 1)) div 4 + 1"
proof -
  let ?s = "sort xs"
  let ?m = "length xs - 1"
  let ?p = "real k / 4 * real ?m"
  let ?d = "(k * ?m) div 4"
  have s: "sorted ?s" "distinct ?s" "length ?s = length xs" "set ?s = set xs"
    using assms(1) by simp_all
  have p0: "0 \<le> ?p" by simp
  have "real k \<le> 4" using assms(3) by simp
  then have "?p \<le> 1 * real ?m" by (intro mult_right_mono) auto
  then have pm: "?p \<le> real (length ?s - 1)" by simp
  have dn: "?d < length xs"
  proof -
    have "k * ?m \<le> 4 * ?m" using assms(3) by simp
    then have "?d \<le> ?m" by linarith
    moreover have "0 < length xs" using assms(2) by simp
    ultimately show ?thesis by linarith
  qed
  have key: "\<And>i. i < length xs \<Longrightarrow> (?s ! i \<le> quantile xs (real k / 4)) \<longleftrightarrow> i \<le> ?d"
  proof -
    fix i assume i: "i < length xs"
    then have "i < length ?s" by simp
    from interpolate_less_nth[OF s(1,2) this p0 pm]
    have "(interpolate ?s ?p < ?s ! i) \<longleftrightarrow> ?p < real i" .
    then have "(?s ! i \<le> interpolate ?s ?p) \<longleftrightarrow> real i \<le> ?p" by linarith
    then show "(?s ! i \<le> quantile xs (real k / 4)) \<longleftrightarrow> i \<le> ?d"
      by (simp only: quantile_def real_quarter_le)
  qed
  have "{v \<in> set xs. v \<le> quantile xs (real k / 4)} = (\<lambda>i. ?s ! i) ` {..?d}"
  proof (intro set_eqI iffI)
    fix v assume "v \<in> {v \<in> set xs. v \<le> quantile xs (real k / 4)}"
    then have "v \<in> set ?s" and le: "v \<le> quantile xs (real k / 4)" by simp_all
    then obtain i where i: "i < length xs" "?s ! i = v"
      by (metis in_set_conv_nth s(3))
    then have "i \<le> ?d" using key le by blast
    then show "v \<in> (\<lambda>i. ?s ! i) ` {..?d}" using i(2) by auto
  next
    fix v assume "v \<in> (\<lambda>i. ?s ! i) ` {..?d}"
    then obtain i where i: "i \<le> ?d" "v = ?s ! i" by auto
    then have il: "i < length xs" using dn by linarith
    then have "v \<in> set ?s" using i(2) s(3) by (metis nth_mem)
    moreover have "v \<le> quantile xs (real k / 4)" using key[OF il] i by simp
    ultimately show "v \<in> {v \<in> set xs. v \<le> quantile xs (real k / 4)}" by simp
  qed
  moreover have "inj_on (\<lambda>i. ?s ! i) {..?d}"
    using s(2) dn by (intro inj_on_nth) (auto simp: s(3))
  ultimately have "card {v \<in> set xs. v \<le> quantile xs (real k / 4)} = card {..?d}"
    by (simp add: card_image)
  then show ?thesis by simp
qed

lemma quantile_strict_mono:
  assumes "distinct xs" "2 \<le> length xs" "j < k" "k \<le> (4::nat)"
  shows "quantile xs (real j / 4) < quantile xs (real k / 4)"
proof -
  let ?s = "sort xs"
  have m: "0 < real (length xs - 1)" using assms(2) by simp
  have "real j / 4 < real k / 4" using assms(3) by simp
  then have lt: "real j / 4 * real (length xs - 1) < real k / 4 * real (length xs - 1)"
    using m by (simp only: mult_strict_right_mono)
  have "real k \<le> 4" using assms(4) by simp
  then have "real k / 4 * real (length xs - 1) \<le> 1 * real (length xs - 1)"
    by (intro mult_right_mono) auto
  then have le: "real k / 4 * real (length xs - 1) \<le> real (length ?s - 1)" by simp
  have "interpolate ?s (real j / 4 * real (length xs - 1))
          < interpolate ?s (real k / 4 * real (length xs - 1))"
  proof (rule interpolate_strict_mono[OF _ _ _ lt le])
    show "sorted ?s" by simp
    show "distinct ?s" using assms(1) by simp
    show "0 \<le> real j / 4 * real (length xs - 1)" by simp
  qed
  then show ?thesis by (simp only: quantile_def)
qed

lemma quantile_ends:
  assumes "xs \<noteq> []"
  shows "quantile xs 0 = sort xs ! 0" "quantile xs 1 = sort xs ! (length xs - 1)"
  by (simp_all add: quantile_def interpolate_def Let_def)

lemma sort_bounds:
  fixes xs :: "real list"
  assumes "v \<in> set xs"
  shows "sort xs ! 0 \<le> v" "v \<le> sort xs ! (length xs - 1)"
proof -
  from assms have "v \<in> set (sort xs)" by simp
  then obtain i where i: "i < length xs" "sort xs ! i = v"
    by (metis in_set_conv_nth length_sort)
  have "sort xs ! 0 \<le> sort xs ! i" using i(1) by (intro sorted_nth_mono) auto
  then show "sort xs ! 0 \<le> v" using i(2) by simp
  have "sort xs ! i \<le> sort xs ! (length xs - 1)" using i(1) by (intro sorted_nth_mono) auto
  then show "v \<le> sort xs ! (length xs - 1)" using i(2) by simp
qed

lemma quartile_bins:
  "map (\<lambda>k. quantile xs (real k / real 4)) [0..<4 + 1] =
     [quantile xs 0, quantile xs (1 / 4), quantile xs (1 / 2), quantile xs (3 / 4), quantile xs 1]"
  by (simp add: upt_rec)

lemma quartile_order:
  assumes "distinct xs" "2 \<le> length xs"
  shows "quantile xs 0 < quantile xs (1 / 4)" "quantile xs (1 / 4) < quantile xs (1 / 2)"
    "quantile xs (1 / 2) < quantile xs (3 / 4)" "quantile xs (3 / 4) < quantile xs 1"
  using quantile_strict_mono[OF assms, of 0 1] quantile_strict_mono[OF assms, of 1 2]
    quantile_strict_mono[OF assms, of 2 3] quantile_strict_mono[OF assms, of 3 4]
  by simp_all

lemma qcut_quartiles:
  assumes "distinct xs" "2 \<le> length xs"
  shows "qcut xs 4 [Low, Medium, High, Premium] =
     Inr (map (\<lambda>v. Some (segment_of (quantile xs (1 / 4)) (quantile xs (1 / 2))
                            (quantile xs (3 / 4)) v)) xs)"
proof -
  note o = quartile_order[OF assms]
  have ne: "xs \<noteq> []" using assms(2) by auto
  have d: "distinct [quantile xs 0, quantile xs (1 / 4), quantile xs (1 / 2),
                     quantile xs (3 / 4), quantile xs 1]"
    using o by auto
  have each: "\<And>v. v \<in> set xs \<Longrightarrow>
     (let ids = (if v = hd [quantile xs 0, quantile xs (1 / 4), quantile xs (1 / 2),
                            quantile xs (3 / 4), quantile xs 1] then 1
                 else searchsorted_left [quantile xs 0, quantile xs (1 / 4), quantile xs (1 / 2),
                            quantile xs (3 / 4), quantile xs 1] v)
      in if ids = length [quantile xs 0, quantile xs (1 / 4), quantile xs (1 / 2),
                            quantile xs (3 / 4), quantile xs 1] \<or> ids = 0 then None
         else Some ([Low, Medium, High, Premium] ! (ids - 1))) =
     Some (segment_of (quantile xs (1 / 4)) (quantile xs (1 / 2)) (quantile xs (3 / 4)) v)"
  proof -
    fix v assume v: "v \<in> set xs"
    have lo: "quantile xs 0 \<le> v" and hi: "v \<le> quantile xs 1"
      using sort_bounds[OF v] by (simp_all add: quantile_ends[OF ne])
    show "?thesis v"
      using lo hi o by (auto simp: searchsorted_left_def segment_of_def Let_def)
  qed
  show ?thesis
    unfolding qcut_def quartile_bins
    using ne d each by (simp add: Let_def cong: map_cong)
qed

lemma segment_of_mono:
  "v < w \<Longrightarrow> rank (segment_of q1 q2 q3 v) \<le> rank (segment_of q1 q2 q3 w)"
  by (auto simp: segment_of_def)

lemma count_labels:
  assumes "distinct xs"
  shows "length (filter (\<lambda>l. l = Some L) (map (\<lambda>v. Some (f v)) xs)) = card {v \<in> set xs. f v = L}"
proof -
  have "filter (\<lambda>l. l = Some L) (map (\<lambda>v. Some (f v)) xs)
          = map (\<lambda>v. Some (f v)) (filter (\<lambda>v. f v = L) xs)"
    by (simp add: filter_map comp_def)
  then have "length (filter (\<lambda>l. l = Some L) (map (\<lambda>v. Some (f v)) xs))
          = length (filter (\<lambda>v. f v = L) xs)" by simp
  also have "\<dots> = card ({v. f v = L} \<inter> set xs)"
    using assms by (rule distinct_length_filter)
  also have "{v. f v = L} \<inter> set xs = {v \<in> set xs. f v = L}" by auto
  finally show ?thesis .
qed

lemma quartile_counts:
  assumes "distinct xs" "2 \<le> length xs"
  defines "seg \<equiv> segment_of (quantile xs (1 / 4)) (quantile xs (1 / 2)) (quantile xs (3 / 4))"
  defines "m \<equiv> length xs - 1"
  shows "card {v \<in> set xs. seg v = Low} = m div 4 + 1"
    "card {v \<in> set xs. seg v = Medium} = (2 * m) div 4 - m div 4"
    "card {v \<in> set xs. seg v = High} = (3 * m) div 4 - (2 * m) div 4"
    "card {v \<in> set xs. seg v = Premium} = m - (3 * m) div 4"
proof -
  let ?A = "\<lambda>q. {v \<in> set xs. v \<le> quantile xs q}"
  have ne: "xs \<noteq> []" using assms(2) by auto
  note o = quartile_order[OF assms(1,2)]
  have c1: "card (?A (1 / 4)) = m div 4 + 1"
    using count_le_quantile[OF assms(1) ne, of 1] by (simp add: m_def)
  have c2: "card (?A (1 / 2)) = (2 * m) div 4 + 1"
    using count_le_quantile[OF assms(1) ne, of 2] by (simp add: m_def)
  have c3: "card (?A (3 / 4)) = (3 * m) div 4 + 1"
    using count_le_quantile[OF assms(1) ne, of 3] by (simp add: m_def)
  have fin: "\<And>q. finite (?A q)" by simp
  have sub: "?A (1 / 4) \<subseteq> ?A (1 / 2)" "?A (1 / 2) \<subseteq> ?A (3 / 4)" "?A (3 / 4) \<subseteq> set xs"
    using o by auto
  have "{v \<in> set xs. seg v = Low} = ?A (1 / 4)"
    by (auto simp: seg_def segment_of_def)
  then show "card {v \<in> set xs. seg v = Low} = m div 4 + 1" using c1 by simp
  have "{v \<in> set xs. seg v = Medium} = ?A (1 / 2) - ?A (1 / 4)"
    using o by (auto simp: seg_def segment_of_def)
  then have "card {v \<in> set xs. seg v = Medium} = card (?A (1 / 2)) - card (?A (1 / 4))"
    using sub(1) fin by (simp only: card_Diff_subset)
  then show "card {v \<in> set xs. seg v = Medium} = (2 * m) div 4 - m div 4"
    using c1 c2 by simp
  have "{v \<in> set xs. seg v = High} = ?A (3 / 4) - ?A (1 / 2)"
    using o by (auto simp: seg_def segment_of_def)
  then have "card {v \<in> set xs. seg v = High} = card (?A (3 / 4)) - card (?A (1 / 2))"
    using sub(2) fin by (simp only: card_Diff_subset)
  then show "card {v \<in> set xs. seg v = High} = (3 * m) div 4 - (2 * m) div 4"
    using c2 c3 by simp
  have "{v \<in> set xs. seg v = Premium} = set xs - ?A (3 / 4)"
    using o by (auto simp: seg_def segment_of_def)
  then have "card {v \<in> set xs. seg v = Premium} = card (set xs) - card (?A (3 / 4))"
    using sub(3) fin by (simp only: card_Diff_subset)
  moreover have "card (set xs) = m + 1"
    using assms(1,2) by (simp add: distinct_card m_def)
  ultimately show "card {v \<in> set xs. seg v = Premium} = m - (3 * m) div 4"
    using c3 by simp
qed

lemma div4_bounds:
  fixes x :: nat
  shows "4 * (x div 4) \<le> x" "x < 4 * (x div 4) + 4"
  by linarith+

lemma quarter_bounds:
  fixes m :: nat
  shows "4 * (m div 4 + 1) \<le> m + 1 + 4 \<and> m + 1 \<le> 4 * (m div 4 + 1) + 4"
    "4 * ((2 * m) div 4 - m div 4) \<le> m + 1 + 4 \<and> m + 1 \<le> 4 * ((2 * m) div 4 - m div 4) + 4"
    "4 * ((3 * m) div 4 - (2 * m) div 4) \<le> m + 1 + 4 \<and>
       m + 1 \<le> 4 * ((3 * m) div 4 - (2 * m) div 4) + 4"
    "4 * (m - (3 * m) div 4) \<le> m + 1 + 4 \<and> m + 1 \<le> 4 * (m - (3 * m) div 4) + 4"
proof -
  define d1 where "d1 = m div 4"
  define d2 where "d2 = (2 * m) div 4"
  define d3 where "d3 = (3 * m) div 4"
  have b1: "4 * d1 \<le> m" "m < 4 * d1 + 4" unfolding d1_def by (rule div4_bounds)+
  have b2: "4 * d2 \<le> 2 * m" "2 * m < 4 * d2 + 4" unfolding d2_def by (rule div4_bounds)+
  have b3: "4 * d3 \<le> 3 * m" "3 * m < 4 * d3 + 4" unfolding d3_def by (rule div4_bounds)+
  show "4 * (m div 4 + 1) \<le> m + 1 + 4 \<and> m + 1 \<le> 4 * (m div 4 + 1) + 4"
    using b1 unfolding d1_def[symmetric] by auto
  show "4 * ((2 * m) div 4 - m div 4) \<le> m + 1 + 4 \<and>
        m + 1 \<le> 4 * ((2 * m) div 4 - m div 4) + 4"
    using b1 b2 unfolding d1_def[symmetric] d2_def[symmetric] by auto
  show "4 * ((3 * m) div 4 - (2 * m) div 4) \<le> m + 1 + 4 \<and>
       m + 1 \<le> 4 * ((3 * m) div 4 - (2 * m) div 4) + 4"
    using b2 b3 unfolding d2_def[symmetric] d3_def[symmetric] by auto
  show "4 * (m - (3 * m) div 4) \<le> m + 1 + 4 \<and> m + 1 \<le> 4 * (m - (3 * m) div 4) + 4"
    using b3 unfolding d3_def[symmetric] by auto
qed

lemma quartile_labels:
  assumes "distinct xs" and "2 \<le> length xs"
  shows "\<exists>labs. qcut xs 4 [Low, Medium, High, Premium] = Inr labs \<and> length labs = length xs \<and>
           (\<forall>L. 4 * length (filter (\<lambda>l. l = Some L) labs) \<le> length xs + 4 \<and>
                length xs \<le> 4 * length (filter (\<lambda>l. l = Some L) labs) + 4) \<and>
           (\<forall>a b. a < length xs \<and> b < length xs \<and> xs ! a < xs ! b \<longrightarrow>
                (\<exists>A B. labs ! a = Some A \<and> labs ! b = Some B \<and> rank A \<le> rank B))"
proof -
  let ?seg = "segment_of (quantile xs (1 / 4)) (quantile xs (1 / 2)) (quantile xs (3 / 4))"
  let ?labs = "map (\<lambda>v. Some (?seg v)) xs"
  let ?m = "length xs - 1"
  have eq: "qcut xs 4 [Low, Medium, High, Premium] = Inr ?labs" using assms by (rule qcut_quartiles)
  obtain m where m: "length xs = m + 1" using assms(2) by (cases "length xs") auto
  then have lm1: "length xs - 1 = m" by simp
  note qc = quartile_counts[OF assms]
  have cL: "length (filter (\<lambda>l. l = Some L) ?labs) = card {v \<in> set xs. ?seg v = L}" for L
    using assms(1) by (rule count_labels)
  have cnt: "4 * length (filter (\<lambda>l. l = Some L) ?labs) \<le> length xs + 4 \<and>
                length xs \<le> 4 * length (filter (\<lambda>l. l = Some L) ?labs) + 4" for L
  proof (cases L)
    case Low
    show ?thesis
      apply (unfold Low cL qc(1))
      apply (unfold lm1)
      apply (unfold m)
      apply (rule quarter_bounds(1))
      done
  next
    case Medium
    show ?thesis
      apply (unfold Medium cL qc(2))
      apply (unfold lm1)
      apply (unfold m)
      apply (rule quarter_bounds(2))
      done
  next
    case High
    show ?thesis
      apply (unfold High cL qc(3))
      apply (unfold lm1)
      apply (unfold m)
      apply (rule quarter_bounds(3))
      done
  next
    case Premium
    show ?thesis
      apply (unfold Premium cL qc(4))
      apply (unfold lm1)
      apply (unfold m)
      apply (rule quarter_bounds(4))
      done
  qed
  have mono: "a < length xs \<and> b < length xs \<and> xs ! a < xs ! b \<longrightarrow>
                (\<exists>A B. ?labs ! a = Some A \<and> ?labs ! b = Some B \<and> rank A \<le> rank B)" for a b
    by (simp add: segment_of_mono)
  show ?thesis
  proof (intro exI[of _ ?labs] conjI allI)
    show "qcut xs 4 [Low, Medium, High, Premium] = Inr ?labs" by (rule eq)
    show "length ?labs = length xs" by simp
    show "4 * length (filter (\<lambda>l. l = Some L) ?labs) \<le> length xs + 4" for L
      using cnt[of L] by (rule conjunct1)
    show "length xs \<le> 4 * length (filter (\<lambda>l. l = Some L) ?labs) + 4" for L
      using cnt[of L] by (rule conjunct2)
    show "a < length xs \<and> b < length xs \<and> xs ! a < xs ! b \<longrightarrow>
            (\<exists>A B. ?labs ! a = Some A \<and> ?labs ! b = Some B \<and> rank A \<le> rank B)" for a b
      by (rule mono)
  qed
qed

lemma total_spent_eq:
  "total_spent data =
     map (\<lambda>k. num_real (round2_num (group_sum CustomerKey Sales_Amount data k)))
       (group_keys CustomerKey data)"
  by (simp add: total_spent_def customer_metrics_def Let_def comp_def group_sum_def
      group_rows_def)

text \<open>
  C7 (as the code has it). The scores that are segmented are the customers' sums of
  Sales Amount rounded to 2 decimals, one for each customer. For every population of N
  customers, N at least 2, whose rounded scores are all different, the segmentation
  into the four labels Low, Medium, High and Premium succeeds, labels every customer,
  gives every label a number of customers that differs from N/4 by at most 1, and is
  monotonic: when the score of customer a is below the score of customer b, the label
  of a is at most the label of b.
\<close>

theorem quartile_segments:
  assumes "distinct (total_spent data)" and "2 \<le> length (total_spent data)"
  shows "total_spent data =
           map (\<lambda>k. num_real (round2_num (group_sum CustomerKey Sales_Amount data k)))
             (group_keys CustomerKey data) \<and>
         (\<exists>labs. spending_segment data = Inr labs \<and>
            length labs = length (total_spent data) \<and>
            (\<forall>L. 4 * length (filter (\<lambda>l. l = Some L) labs) \<le> length (total_spent data) + 4 \<and>
                 length (total_spent data) \<le> 4 * length (filter (\<lambda>l. l = Some L) labs) + 4) \<and>
            (\<forall>a b. a < length (total_spent data) \<and> b < length (total_spent data) \<and>
                   total_spent data ! a < total_spent data ! b \<longrightarrow>
                 (\<exists>A B. labs ! a = Some A \<and> labs ! b = Some B \<and> rank A \<le> rank B)))"
  using quartile_labels[OF assms] total_spent_eq[of data]
  by (simp only: spending_segment_def)

lemma five_customers_spent: "total_spent five_customers = [1, 2, 3, 4, 5]"
  by (simp add: total_spent_eq group_keys_def five_customers_def customer_line_def row_defs
      sum_defs map_filter_simps round2_def rint_def)

theorem quartile_segments_witness:
  "distinct (total_spent five_customers) \<and> length (total_spent five_customers) = 5 \<and>
   (\<exists>labs. spending_segment five_customers = Inr labs \<and> length labs = 5 \<and>
      (\<forall>L. 4 * length (filter (\<lambda>l. l = Some L) labs) \<le> 9 \<and>
           5 \<le> 4 * length (filter (\<lambda>l. l = Some L) labs) + 4))"
proof -
  have d: "distinct (total_spent five_customers)" "2 \<le> length (total_spent five_customers)"
    and l: "length (total_spent five_customers) = 5"
    by (simp_all add: five_customers_spent)
  from quartile_segments[OF d] obtain labs where
    "spending_segment five_customers = Inr labs"
    "length labs = length (total_spent five_customers)"
    "\<forall>L. 4 * length (filter (\<lambda>l. l = Some L) labs) \<le> length (total_spent five_customers) + 4 \<and>
         length (total_spent five_customers) \<le> 4 * length (filter (\<lambda>l. l = Some L) labs) + 4"
    by blast
  then have "\<exists>labs. spending_segment five_customers = Inr labs \<and> length labs = 5 \<and>
      (\<forall>L. 4 * length (filter (\<lambda>l. l = Some L) labs) \<le> 9 \<and>
           5 \<le> 4 * length (filter (\<lambda>l. l = Some L) labs) + 4)"
    by (intro exI[of _ labs]) (simp add: l)
  with d(1) l show ?thesis by blast
qed

text \<open>
  C7 as stated fails. For a single customer the five bin edges coincide and the
  segmentation raises ValueError instead of assigning a segment. For four customers
  with the different sums 1.001, 1.002, 1.003 and 1.004 the scores are all rounded to
  1, the bin edges coincide again, and the segmentation raises ValueError.
\<close>

theorem single_customer_counterexample:
  "length (total_spent two_lines) = 1 \<and> spending_segment two_lines = Inl ValueError \<and>
   distinct (map (\<lambda>k. num_real (group_sum CustomerKey Sales_Amount close_customers k))
               (group_keys CustomerKey close_customers)) \<and>
   length (group_keys CustomerKey close_customers) = 4 \<and>
   total_spent close_customers = [1, 1, 1, 1] \<and>
   spending_segment close_customers = Inl ValueError"
proof -
  have a: "total_spent two_lines = [400]"
    by (simp add: total_spent_eq group_keys_def two_lines_def row_defs sum_defs
        map_filter_simps round2_def rint_def)
  have b: "spending_segment two_lines = Inl ValueError"
    by (simp add: spending_segment_def a qcut_def quantile_def interpolate_def Let_def upt_rec)
  have k: "group_keys CustomerKey close_customers = [1, 2, 3, 4]"
    by (simp add: group_keys_def close_customers_def customer_line_def row_defs
        map_filter_simps)
  have c: "distinct (map (\<lambda>k. num_real (group_sum CustomerKey Sales_Amount close_customers k))
               (group_keys CustomerKey close_customers))"
    by (simp add: group_keys_def close_customers_def customer_line_def row_defs sum_defs
        map_filter_simps)
  have d: "total_spent close_customers = [1, 1, 1, 1]"
    by (simp add: total_spent_eq group_keys_def close_customers_def customer_line_def
        row_defs sum_defs map_filter_simps round2_def rint_def)
  have e: "spending_segment close_customers = Inl ValueError"
    by (simp add: spending_segment_def d qcut_def quantile_def interpolate_def Let_def upt_rec)
  from a b c d e k show ?thesis by simp
qed

end
